theory Spec2Isabelle
  imports Complex_Main "HOL-Library.Word" "HOL-Library.Multiset"
begin

section \<open>JavaScript values\<close>

text \<open>
  The class \<open>TrailComparisonMask\<close> of \<open>trail_comparison.js\<close> inspects the shape of
  its arguments at run time, so trails are modelled as untyped JavaScript values: a
  number, \<open>undefined\<close>, or an array of values. A JavaScript number is an IEEE
  double: \<open>NaN\<close>, a signed infinity or a finite value, held here as the real number
  it denotes. Every arithmetic operation rounds its exact result to the nearest
  double (\<open>fl\<close> below); only the sign of zero is not modelled. An exception is the
  value \<open>Inl e\<close> of a result type.
\<close>

datatype jsnum = NaN | Inf bool | Fin real

subsection \<open>Rounding to a double\<close>

text \<open>
  \<open>rne\<close> rounds a real to the nearest integer, a tie to the even one. \<open>expo x\<close> is
  the exponent of the binade of \<open>x\<close>, the \<open>e\<close> with \<open>2^e \<le> |x| < 2^(e+1)\<close>, and
  \<open>-1022\<close> for the subnormal numbers and zero; the doubles of that binade are the
  multiples of \<open>2^(e-52)\<close>. \<open>fl x\<close> is the double nearest to \<open>x\<close>, a tie to the even
  significand, and an infinity once the rounded value reaches \<open>2^1024\<close>: the result
  of an IEEE operation whose exact result is \<open>x\<close>. \<open>double_of\<close> is the finite double a
  decimal literal denotes.
\<close>

definition rne :: "real \<Rightarrow> int" where
  "rne q =
     (let f = \<lfloor>q\<rfloor>; d = q - of_int f
      in if d < 1 / 2 then f else if 1 / 2 < d then f + 1
         else if even f then f else f + 1)"

function expo_pos :: "real \<Rightarrow> int" where
  "expo_pos x = (if 2 \<le> x then expo_pos (x / 2) + 1 else 0)"
  by pat_completeness auto
termination
proof (relation "measure (\<lambda>x. nat \<lceil>x\<rceil>)")
  show "wf (measure (\<lambda>x. nat \<lceil>x\<rceil>))" by simp
next
  fix x :: real
  assume "2 \<le> x"
  then have "x / 2 \<le> x - 1" by simp
  then have "\<lceil>x / 2\<rceil> \<le> \<lceil>x - 1\<rceil>" by (rule ceiling_mono)
  moreover have "0 < \<lceil>x\<rceil>"
    using \<open>2 \<le> x\<close> by (simp add: ceiling_less_iff less_ceiling_iff)
  ultimately show "(x / 2, x) \<in> measure (\<lambda>x. nat \<lceil>x\<rceil>)" by simp
qed

declare expo_pos.simps [simp del]

fun expo_neg :: "nat \<Rightarrow> real \<Rightarrow> int" where
  "expo_neg 0 x = 0"
| "expo_neg (Suc n) x = (if x < 1 then expo_neg n (2 * x) - 1 else 0)"

definition expo :: "real \<Rightarrow> int" where
  "expo x = (if 1 \<le> \<bar>x\<bar> then expo_pos \<bar>x\<bar> else expo_neg 1022 \<bar>x\<bar>)"

definition fl :: "real \<Rightarrow> jsnum" where
  "fl x =
     (let u = 2 powi (expo x - 52);
          r = of_int (rne (x / u)) * u
      in if 2 ^ 1024 \<le> \<bar>r\<bar> then Inf (0 < x) else Fin r)"

definition double_of :: "real \<Rightarrow> real" where
  "double_of x = (case fl x of Fin r \<Rightarrow> r | _ \<Rightarrow> 0)"

subsection \<open>Values and operations\<close>

datatype jsval = Undefined | Num jsnum | Arr "jsval list"

datatype error = TypeError | IndexSizeError

text \<open>The arithmetic of numbers: \<open>*\<close>, \<open>+\<close>, \<open>-\<close>, \<open>/\<close>, \<open><\<close>, \<open>>=\<close> and
  \<open>Math.round\<close>. \<open>Inf True\<close> is \<open>Infinity\<close>, \<open>Inf False\<close> is \<open>-Infinity\<close>. On finite
  operands the result is the exact result rounded by \<open>fl\<close>.\<close>

fun js_mul :: "jsnum \<Rightarrow> jsnum \<Rightarrow> jsnum" where
  "js_mul (Fin a) (Fin b) = fl (a * b)"
| "js_mul (Inf s) (Fin b) = (if b = 0 then NaN else Inf (s = (0 < b)))"
| "js_mul (Fin a) (Inf s) = (if a = 0 then NaN else Inf (s = (0 < a)))"
| "js_mul (Inf s) (Inf t) = Inf (s = t)"
| "js_mul NaN _ = NaN"
| "js_mul _ NaN = NaN"

fun js_add :: "jsnum \<Rightarrow> jsnum \<Rightarrow> jsnum" where
  "js_add (Fin a) (Fin b) = fl (a + b)"
| "js_add (Inf s) (Fin b) = Inf s"
| "js_add (Fin a) (Inf s) = Inf s"
| "js_add (Inf s) (Inf t) = (if s = t then Inf s else NaN)"
| "js_add NaN _ = NaN"
| "js_add _ NaN = NaN"

fun js_sub :: "jsnum \<Rightarrow> jsnum \<Rightarrow> jsnum" where
  "js_sub (Fin a) (Fin b) = fl (a - b)"
| "js_sub (Inf s) (Fin b) = Inf s"
| "js_sub (Fin a) (Inf s) = Inf (\<not> s)"
| "js_sub (Inf s) (Inf t) = (if s = t then NaN else Inf s)"
| "js_sub NaN _ = NaN"
| "js_sub _ NaN = NaN"

fun js_div :: "jsnum \<Rightarrow> jsnum \<Rightarrow> jsnum" where
  "js_div (Fin a) (Fin b) =
     (if b = 0 then (if a = 0 then NaN else Inf (0 < a)) else fl (a / b))"
| "js_div (Inf s) (Fin b) = Inf (s = (0 \<le> b))"
| "js_div (Fin a) (Inf s) = Fin 0"
| "js_div (Inf s) (Inf t) = NaN"
| "js_div NaN _ = NaN"
| "js_div _ NaN = NaN"

fun js_lt :: "jsnum \<Rightarrow> jsnum \<Rightarrow> bool" where
  "js_lt (Fin a) (Fin b) = (a < b)"
| "js_lt (Inf s) (Fin b) = (\<not> s)"
| "js_lt (Fin a) (Inf s) = s"
| "js_lt (Inf s) (Inf t) = (\<not> s \<and> t)"
| "js_lt NaN _ = False"
| "js_lt _ NaN = False"

fun js_ge :: "jsnum \<Rightarrow> jsnum \<Rightarrow> bool" where
  "js_ge (Fin a) (Fin b) = (b \<le> a)"
| "js_ge (Inf s) (Fin b) = s"
| "js_ge (Fin a) (Inf s) = (\<not> s)"
| "js_ge (Inf s) (Inf t) = (s \<or> \<not> t)"
| "js_ge NaN _ = False"
| "js_ge _ NaN = False"

text \<open>\<open>Math.round\<close> gives the integer nearest to its argument, a tie towards
  \<open>+Infinity\<close>, computed without intermediate rounding: it is \<open>\<lfloor>x + 1/2\<rfloor>\<close>, which
  is HOL's \<open>round\<close>.\<close>

fun math_round :: "jsnum \<Rightarrow> jsnum" where
  "math_round (Fin r) = Fin (of_int (round r))"
| "math_round (Inf s) = Inf s"
| "math_round NaN = NaN"

text \<open>\<open>ToNumber\<close>, applied by \<open>*\<close> to an operand: \<open>undefined\<close> is \<open>NaN\<close>; an array
  is first joined to a string (\<open>undefined\<close> elements as the empty string, elements
  separated by commas) and the string is read back, so the empty array is \<open>0\<close>, a
  one-element array is its element and a longer array is \<open>NaN\<close>.\<close>

fun to_number :: "jsval \<Rightarrow> jsnum" where
  "to_number Undefined = NaN"
| "to_number (Num n) = n"
| "to_number (Arr []) = Fin 0"
| "to_number (Arr [v]) = (if v = Undefined then Fin 0 else to_number v)"
| "to_number (Arr (v # v' # vs)) = NaN"

text \<open>Property reads \<open>v[i]\<close> and \<open>v.length\<close>: a read on \<open>undefined\<close> throws a
  \<open>TypeError\<close>, a read on a number gives \<open>undefined\<close>, an index past the end of an
  array gives \<open>undefined\<close>.\<close>

fun get_elem :: "jsval \<Rightarrow> nat \<Rightarrow> error + jsval" where
  "get_elem Undefined i = Inl TypeError"
| "get_elem (Num n) i = Inr Undefined"
| "get_elem (Arr xs) i = Inr (if i < length xs then xs ! i else Undefined)"

fun get_length :: "jsval \<Rightarrow> error + jsval" where
  "get_length Undefined = Inl TypeError"
| "get_length (Num n) = Inr Undefined"
| "get_length (Arr xs) = Inr (Num (Fin (real (length xs))))"

text \<open>\<open>Array.prototype.flat()\<close> with its default depth 1: the elements of an element
  that is an array are spliced in, any other element is kept. A value that is not an
  array has no method \<open>flat\<close>.\<close>

fun flat_elem :: "jsval \<Rightarrow> jsval list" where
  "flat_elem (Arr xs) = xs"
| "flat_elem v = [v]"

fun flat :: "jsval \<Rightarrow> error + jsval" where
  "flat (Arr xs) = Inr (Arr (concat (map flat_elem xs)))"
| "flat v = Inl TypeError"

text \<open>The parameter pattern \<open>[x, y]\<close>: the argument must be iterable (an array here);
  a missing element is \<open>undefined\<close>.\<close>

fun destructure_xy :: "jsval \<Rightarrow> error + (jsval \<times> jsval)" where
  "destructure_xy (Arr xs) =
     Inr (if 0 < length xs then xs ! 0 else Undefined,
          if 1 < length xs then xs ! 1 else Undefined)"
| "destructure_xy v = Inl TypeError"

text \<open>\<open>Array.prototype.map\<close> with a callback that may throw: the first exception
  ends the call.\<close>

fun map_err :: "('a \<Rightarrow> error + 'b) \<Rightarrow> 'a list \<Rightarrow> error + 'b list" where
  "map_err f [] = Inr []"
| "map_err f (x # xs) =
     (case f x of Inl e \<Rightarrow> Inl e
      | Inr y \<Rightarrow> (case map_err f xs of Inl e \<Rightarrow> Inl e | Inr ys \<Rightarrow> Inr (y # ys)))"

text \<open>A read \<open>data[i]\<close> of a \<open>Uint8ClampedArray\<close>: the byte at \<open>i\<close> when \<open>i\<close> is an
  integer index inside the array, \<open>undefined\<close> (here \<open>None\<close>) otherwise.\<close>

fun typed_array_get :: "8 word list \<Rightarrow> jsnum \<Rightarrow> nat option" where
  "typed_array_get data (Fin r) =
     (if r = of_int \<lfloor>r\<rfloor> \<and> 0 \<le> r \<and> r < real (length data)
      then Some (unat (data ! nat \<lfloor>r\<rfloor>)) else None)"
| "typed_array_get data n = None"

section \<open>The mask object\<close>

text \<open>The fields of a \<open>TrailComparisonMask\<close>. \<open>img\<close> is the \<open>data\<close> array of the stored
  \<open>ImageData\<close> (four bytes R, G, B, A for each pixel, row by row), \<open>None\<close> while the
  field is \<open>null\<close>. \<open>thickness\<close> and \<open>blur_size\<close> are \<open>None\<close> while \<open>null\<close>.\<close>

record mask =
  w :: nat
  h :: nat
  img :: "8 word list option"
  mask_value :: nat
  thickness :: "real option"
  blur_size :: "real option"
  trails_xy_norm :: jsval

subsection \<open>Shape normalisation and the coordinate transform\<close>

definition convert_to_list_of_trails :: "jsval \<Rightarrow> error + jsval" where
  "convert_to_list_of_trails trails_list_or_single_trail =
     (case get_elem trails_list_or_single_trail 0 of
        Inl e \<Rightarrow> Inl e
      | Inr t0 \<Rightarrow>
     (case get_elem t0 0 of
        Inl e \<Rightarrow> Inl e
      | Inr t00 \<Rightarrow>
     (case get_length t00 of
        Inl e \<Rightarrow> Inl e
      | Inr len \<Rightarrow>
          (let is_one_trail = (len = Undefined)
           in Inr (if is_one_trail then Arr [trails_list_or_single_trail]
                   else trails_list_or_single_trail)))))"

definition xy_to_px :: "jsnum \<Rightarrow> jsnum \<Rightarrow> jsval \<Rightarrow> error + (jsnum \<times> jsnum)" where
  "xy_to_px w_scale h_scale p =
     (case destructure_xy p of
        Inl e \<Rightarrow> Inl e
      | Inr (x, y) \<Rightarrow>
          Inr (math_round (js_mul (to_number x) w_scale),
               math_round (js_mul (to_number y) h_scale)))"

definition xy_norm_to_px :: "jsval \<Rightarrow> nat \<Rightarrow> nat \<Rightarrow> error + (jsnum \<times> jsnum) list" where
  "xy_norm_to_px xy_norm_list width_px height_px =
     (let w_scale = js_sub (Fin (real width_px)) (Fin 1);
          h_scale = js_sub (Fin (real height_px)) (Fin 1)
      in case xy_norm_list of
           Arr ps \<Rightarrow> map_err (xy_to_px w_scale h_scale) ps
         | _ \<Rightarrow> Inl TypeError)"

subsection \<open>Scoring\<close>

text \<open>The loop of \<open>compare\<close> over the pixel coordinates, with the running
  \<open>point_total\<close>. A point outside the raster is skipped; otherwise the red channel of
  its pixel is read from \<open>this.img.data\<close> (a \<open>TypeError\<close> while \<open>this.img\<close> is
  \<open>null\<close>) and added; adding \<open>undefined\<close> gives \<open>NaN\<close>.\<close>

fun compare_loop :: "mask \<Rightarrow> (jsnum \<times> jsnum) list \<Rightarrow> jsnum \<Rightarrow> error + jsnum" where
  "compare_loop m [] point_total = Inr point_total"
| "compare_loop m ((x, y) # rest) point_total =
     (if js_lt x (Fin 0) \<or> js_ge x (Fin (real (w m))) \<or>
         js_lt y (Fin 0) \<or> js_ge y (Fin (real (h m)))
      then compare_loop m rest point_total
      else
        (let pixel_idx = js_mul (js_add (js_mul y (Fin (real (w m)))) x) (Fin 4)
         in case img m of
              None \<Rightarrow> Inl TypeError
            | Some data \<Rightarrow>
                (let pixel_red_value = typed_array_get data pixel_idx
                 in compare_loop m rest
                      (case pixel_red_value of
                         None \<Rightarrow> NaN
                       | Some v \<Rightarrow> js_add point_total (Fin (real v))))))"

definition compare :: "mask \<Rightarrow> jsval \<Rightarrow> error + jsnum" where
  "compare m other_trails_xy_norm =
     (case convert_to_list_of_trails other_trails_xy_norm of
        Inl e \<Rightarrow> Inl e
      | Inr other_xy_norm_list \<Rightarrow>
     (case flat other_xy_norm_list of
        Inl e \<Rightarrow> Inl e
      | Inr all_other_xy_norm \<Rightarrow>
     (case xy_norm_to_px all_other_xy_norm (w m) (h m) of
        Inl e \<Rightarrow> Inl e
      | Inr all_other_xy_px \<Rightarrow>
     (case compare_loop m all_other_xy_px (Fin 0) of
        Inl e \<Rightarrow> Inl e
      | Inr point_total \<Rightarrow>
          (let num_points = length all_other_xy_px;
               score = js_div (js_div point_total (Fin (real (mask_value m))))
                              (Fin (real num_points))
           in Inr score)))))"

subsection \<open>Rasterising\<close>

text \<open>
  The mask is drawn on a browser canvas. The drawing context is the record \<open>ctx\<close>:
  the size of the canvas, its pixels (R, G, B, A bytes, row by row) and the drawing
  state the code sets (the grey level of \<open>strokeStyle\<close>, \<open>lineWidth\<close>, the radius of
  the \<open>blur\<close> filter, whether \<open>globalCompositeOperation\<close> is \<open>screen\<close>; line caps and
  joins are always round). What the browser paints is not part of the repository:
  \<open>stroke_path\<close> gives the pixels after \<open>ctx.stroke()\<close> of a path and \<open>draw_self\<close>
  the pixels after \<open>ctx.drawImage(ctx.canvas, 0, 0)\<close>, both under the current state,
  and every function below takes them as the parameter \<open>br\<close>. The state that an
  exception leaves behind in the object is not modelled.
\<close>

datatype path_cmd = MoveTo jsnum jsnum | LineTo jsnum jsnum

record ctx =
  canvas_width :: nat
  canvas_height :: nat
  pixels :: "8 word list"
  stroke_style :: nat
  line_width :: real
  filter_blur :: real
  screen_mode :: bool

record browser =
  stroke_path :: "ctx \<Rightarrow> path_cmd list \<Rightarrow> 8 word list"
  draw_self :: "ctx \<Rightarrow> 8 word list"

text \<open>Assigning \<open>ctx.lineWidth\<close>: \<open>null\<close>, zero and negative values are ignored.\<close>

definition set_line_width :: "real option \<Rightarrow> ctx \<Rightarrow> ctx" where
  "set_line_width v c =
     (case v of None \<Rightarrow> c | Some t \<Rightarrow> if 0 < t then c\<lparr>line_width := t\<rparr> else c)"

text \<open>\<open>ctx.getImageData(0, 0, w, h)\<close> throws an \<open>IndexSizeError\<close> for an empty
  rectangle.\<close>

definition get_image_data :: "ctx \<Rightarrow> error + 8 word list" where
  "get_image_data c =
     (if canvas_width c = 0 \<or> canvas_height c = 0 then Inl IndexSizeError
      else Inr (pixels c))"

text \<open>The path of one trail in \<open>draw_trails\<close>: \<open>moveTo(...trail_xy_px[0])\<close>, which
  throws when the trail has no point (\<open>undefined\<close> cannot be spread), then a
  \<open>lineTo\<close> for each later point.\<close>

fun trail_path :: "(jsnum \<times> jsnum) list \<Rightarrow> error + path_cmd list" where
  "trail_path [] = Inl TypeError"
| "trail_path ((x, y) # rest) =
     Inr (MoveTo x y # map (\<lambda>(x_px, y_px). LineTo x_px y_px) rest)"

fun trails_path :: "jsval list \<Rightarrow> nat \<Rightarrow> nat \<Rightarrow> error + path_cmd list" where
  "trails_path [] width_px height_px = Inr []"
| "trails_path (trail_xy_norm # rest) width_px height_px =
     (case xy_norm_to_px trail_xy_norm width_px height_px of
        Inl e \<Rightarrow> Inl e
      | Inr trail_xy_px \<Rightarrow>
     (case trail_path trail_xy_px of
        Inl e \<Rightarrow> Inl e
      | Inr p \<Rightarrow>
     (case trails_path rest width_px height_px of
        Inl e \<Rightarrow> Inl e
      | Inr ps \<Rightarrow> Inr (p @ ps))))"

definition draw_trails :: "browser \<Rightarrow> ctx \<Rightarrow> jsval \<Rightarrow> bool \<Rightarrow> error + ctx" where
  "draw_trails br c trails_xy_norm_arg clear_before_draw =
     (let width_px = canvas_width c;
          height_px = canvas_height c;
          c1 = (if clear_before_draw
                then c\<lparr>pixels := replicate (4 * width_px * height_px) 0\<rparr> else c)
      in case convert_to_list_of_trails trails_xy_norm_arg of
           Inl e \<Rightarrow> Inl e
         | Inr (Arr trails_xy_norm_list) \<Rightarrow>
             (case trails_path trails_xy_norm_list width_px height_px of
                Inl e \<Rightarrow> Inl e
              | Inr path \<Rightarrow> Inr (c1\<lparr>pixels := stroke_path br c1 path\<rparr>))
         | Inr _ \<Rightarrow> Inl TypeError)"

text \<open>\<open>_generate_mask\<close>: setting the canvas size resets the context, the black
  rectangle makes every pixel \<open>(0, 0, 0, 255)\<close>.\<close>

definition generate_mask :: "browser \<Rightarrow> mask \<Rightarrow> error + mask" where
  "generate_mask br m =
     (let c0 = \<lparr>canvas_width = w m, canvas_height = h m,
                pixels = concat (replicate (w m * h m) [0, 0, 0, 255]),
                stroke_style = 0, line_width = 1, filter_blur = 0,
                screen_mode = False\<rparr>
      in case get_length (trails_xy_norm m) of
           Inl e \<Rightarrow> Inl e
         | Inr len \<Rightarrow>
             (let no_trail_data = (len = Num (Fin 0))
              in if no_trail_data
                 then (case get_image_data c0 of
                         Inl e \<Rightarrow> Inl e
                       | Inr d \<Rightarrow> Inr (m\<lparr>img := Some d\<rparr>))
                 else
                   (let clear_bg = False;
                        color = mask_value m;
                        c1 = set_line_width (thickness m) (c0\<lparr>stroke_style := color\<rparr>);
                        blurred =
                          (case blur_size m of
                             None \<Rightarrow> Inr c1
                           | Some b \<Rightarrow>
                               if 0 < b
                               then (case draw_trails br (c1\<lparr>filter_blur := b\<rparr>)
                                            (trails_xy_norm m) clear_bg of
                                       Inl e \<Rightarrow> Inl e
                                     | Inr c2 \<Rightarrow>
                                         (let s0 = c2\<lparr>screen_mode := True\<rparr>;
                                              s1 = s0\<lparr>pixels := draw_self br s0\<rparr>;
                                              s2 = s1\<lparr>pixels := draw_self br s1\<rparr>
                                          in Inr (s2\<lparr>screen_mode := False\<rparr>)))
                               else Inr c1)
                    in case blurred of
                         Inl e \<Rightarrow> Inl e
                       | Inr c3 \<Rightarrow>
                           (case draw_trails br (c3\<lparr>filter_blur := 0\<rparr>)
                                  (trails_xy_norm m) clear_bg of
                              Inl e \<Rightarrow> Inl e
                            | Inr c4 \<Rightarrow>
                                (case get_image_data c4 of
                                   Inl e \<Rightarrow> Inl e
                                 | Inr d \<Rightarrow> Inr (m\<lparr>img := Some d\<rparr>))))))"

text \<open>\<open>update_mask_parameters\<close>: an argument \<open>None\<close> is \<open>null\<close>. The result carries
  the lines written with \<open>console.warn\<close> and the updated object.\<close>

definition update_mask_parameters ::
  "browser \<Rightarrow> mask \<Rightarrow> jsval option \<Rightarrow> real option \<Rightarrow> real option
     \<Rightarrow> error + (string list \<times> mask)" where
  "update_mask_parameters br m trails_arg thickness_arg blur_arg =
     (let no_inputs = (trails_arg = None \<and> thickness_arg = None \<and> blur_arg = None)
      in if no_inputs
         then Inr ([''No parameters given when updating mask! Ignoring update''], m)
         else
           (let m1 = m\<lparr>thickness :=
                        (case thickness_arg of Some t \<Rightarrow> Some t | None \<Rightarrow> thickness m)\<rparr>;
                m2 = m1\<lparr>blur_size :=
                        (case blur_arg of Some b \<Rightarrow> Some b | None \<Rightarrow> blur_size m1)\<rparr>
            in case (case trails_arg of
                       None \<Rightarrow> Inr m2
                     | Some t \<Rightarrow>
                         (case convert_to_list_of_trails t of
                            Inl e \<Rightarrow> Inl e
                          | Inr l \<Rightarrow> Inr (m2\<lparr>trails_xy_norm := l\<rparr>))) of
                 Inl e \<Rightarrow> Inl e
               | Inr m3 \<Rightarrow>
                   (case generate_mask br m3 of
                      Inl e \<Rightarrow> Inl e
                    | Inr m4 \<Rightarrow> Inr ([], m4))))"

text \<open>The constructor. \<open>new_mask\<close> is the call that omits the thickness and the blur
  size, which then take their defaults \<open>64\<close> and \<open>32\<close>.\<close>

definition constructor ::
  "browser \<Rightarrow> jsval option \<Rightarrow> nat \<Rightarrow> nat \<Rightarrow> real option \<Rightarrow> real option
     \<Rightarrow> error + (string list \<times> mask)" where
  "constructor br trails_xy_norm_list mask_width mask_height thickness_arg blur_arg =
     update_mask_parameters br
       \<lparr>w = mask_width, h = mask_height, img = None, mask_value = 255,
        thickness = None, blur_size = None, trails_xy_norm = Arr []\<rparr>
       trails_xy_norm_list thickness_arg blur_arg"

definition new_mask :: "browser \<Rightarrow> jsval option \<Rightarrow> nat \<Rightarrow> nat \<Rightarrow> error + (string list \<times> mask)" where
  "new_mask br trails_xy_norm_list mask_width mask_height =
     constructor br trails_xy_norm_list mask_width mask_height (Some 64) (Some 32)"

section \<open>The data model of the specification\<close>

text \<open>A point is a pair of reals, a trail a list of points, a trail set a list of
  trails, which may be empty; \<open>js_trail\<close> and \<open>js_trail_set\<close> are the arrays a caller
  passes for them.\<close>

type_synonym point = "real \<times> real"

fun js_point :: "point \<Rightarrow> jsval" where
  "js_point (x, y) = Arr [Num (Fin x), Num (Fin y)]"

definition js_trail :: "point list \<Rightarrow> jsval" where
  "js_trail ps = Arr (map js_point ps)"

definition js_trail_set :: "point list list \<Rightarrow> jsval" where
  "js_trail_set ts = Arr (map js_trail ts)"

text \<open>The trail sets \<open>draw_trails\<close> can stroke: every trail has a point, as the data
  model of the specification asks of a trail.\<close>

definition well_formed :: "point list list \<Rightarrow> bool" where
  "well_formed ts = list_all (\<lambda>t. t \<noteq> []) ts"


text \<open>The transform of the specification, \<open>px = round(x_norm * (width - 1))\<close>, in the
  arithmetic of doubles, and the pair of numbers the code computes for a point.\<close>

definition spec_px :: "nat \<Rightarrow> real \<Rightarrow> jsnum" where
  "spec_px d v = math_round (js_mul (Fin v) (js_sub (Fin (real d)) (Fin 1)))"

definition px_pair :: "nat \<Rightarrow> nat \<Rightarrow> point \<Rightarrow> jsnum \<times> jsnum" where
  "px_pair width height p = (spec_px width (fst p), spec_px height (snd p))"

text \<open>The score in the words of the specification: a pixel coordinate is in bounds
  when it lies in \<open>[0, width-1] \<times> [0, height-1]\<close>; the intensity of the raster at a
  pixel is the red byte of that pixel; a point samples the intensity at its pixel
  when in bounds and \<open>0\<close> otherwise; the score is the sum of the samples divided by
  \<open>255\<close> and by the number of points, the two divisions being those of doubles.\<close>

fun coord_in_range :: "nat \<Rightarrow> jsnum \<Rightarrow> bool" where
  "coord_in_range d (Fin a) = (0 \<le> a \<and> a \<le> real d - 1)"
| "coord_in_range d c = False"

definition spec_in_bounds :: "nat \<Rightarrow> nat \<Rightarrow> jsnum \<Rightarrow> jsnum \<Rightarrow> bool" where
  "spec_in_bounds width height px py = (coord_in_range width px \<and> coord_in_range height py)"

fun intensity :: "8 word list \<Rightarrow> nat \<Rightarrow> jsnum \<Rightarrow> jsnum \<Rightarrow> nat" where
  "intensity data width (Fin a) (Fin b) = unat (data ! (4 * (nat \<lfloor>b\<rfloor> * width + nat \<lfloor>a\<rfloor>)))"
| "intensity data width px py = 0"

definition spec_sample :: "8 word list \<Rightarrow> nat \<Rightarrow> nat \<Rightarrow> point \<Rightarrow> nat" where
  "spec_sample data width height p =
     (let px = spec_px width (fst p); py = spec_px height (snd p)
      in if spec_in_bounds width height px py then intensity data width px py else 0)"

definition spec_score :: "8 word list \<Rightarrow> nat \<Rightarrow> nat \<Rightarrow> point list \<Rightarrow> jsnum" where
  "spec_score data width height pts =
     js_div (js_div (Fin (real (sum_list (map (spec_sample data width height) pts))))
                    (Fin 255))
            (Fin (real (length pts)))"

text \<open>The masks the scoring theorems are about: the object holds image data of the
  size of its raster, which is not empty, the data array is no longer than a typed
  array can be, and the mask value is the \<open>255\<close> the constructor sets.\<close>

definition valid_raster :: "mask \<Rightarrow> 8 word list \<Rightarrow> bool" where
  "valid_raster m data =
     (img m = Some data \<and> 0 < w m \<and> 0 < h m \<and> length data = 4 * w m * h m \<and>
      length data < 2 ^ 53 \<and> mask_value m = 255)"

text \<open>A mask of 2 by 2 pixels with the red bytes 10, 20 (first row) and 30, 255
  (second row), used to run the code on concrete queries.\<close>

definition example_data :: "8 word list" where
  "example_data = [10, 0, 0, 255, 20, 0, 0, 255, 30, 0, 0, 255, 255, 0, 0, 255]"

definition example_mask :: mask where
  "example_mask =
     \<lparr>w = 2, h = 2, img = Some example_data, mask_value = 255,
      thickness = Some 64, blur_size = Some 32,
      trails_xy_norm = Arr [Arr [Arr [Num (Fin 0), Num (Fin 0)]]]\<rparr>"

text \<open>A canvas implementation that paints nothing, used to run the constructor on
  concrete trails.\<close>

definition example_browser :: browser where
  "example_browser = \<lparr>stroke_path = (\<lambda>c p. pixels c), draw_self = (\<lambda>c. pixels c)\<rparr>"

text \<open>Malformed trail data: a point that may lack its second coordinate, as the array
  a caller passes for it, the pair of numbers the code computes for it, and what it
  adds to the sum when it does not make the sum \<open>NaN\<close>.\<close>

fun js_partial_point :: "real \<times> real option \<Rightarrow> jsval" where
  "js_partial_point (x, None) = Arr [Num (Fin x)]"
| "js_partial_point (x, Some y) = Arr [Num (Fin x), Num (Fin y)]"

fun px_partial :: "nat \<Rightarrow> nat \<Rightarrow> real \<times> real option \<Rightarrow> jsnum \<times> jsnum" where
  "px_partial width height (x, None) = (spec_px width x, NaN)"
| "px_partial width height (x, Some y) = (spec_px width x, spec_px height y)"

fun partial_sample :: "8 word list \<Rightarrow> nat \<Rightarrow> nat \<Rightarrow> real \<times> real option \<Rightarrow> nat" where
  "partial_sample data width height (x, None) = 0"
| "partial_sample data width height (x, Some y) = spec_sample data width height (x, y)"

text \<open>A canvas implementation that keeps the number of pixel bytes, as every
  browser does.\<close>

definition keeps_size :: "browser \<Rightarrow> bool" where
  "keeps_size br =
     ((\<forall>c p. length (stroke_path br c p) = length (pixels c)) \<and>
      (\<forall>c. length (draw_self br c) = length (pixels c)))"

text \<open>A complete point is a partial point that has its second coordinate.\<close>

definition complete :: "point \<Rightarrow> real \<times> real option" where
  "complete p = (fst p, Some (snd p))"





definition example_trail :: "point list" where
  "example_trail = [(1, 1), (2, 2)]"

definition transform_trail :: "point list" where
  "transform_trail = [(1 / 2, 1 / 4), (0, 1)]"

definition trail_nan :: "(real \<times> real option) list" where
  "trail_nan = [(0, Some 1), (1, None)]"

definition trail_skip :: "(real \<times> real option) list" where
  "trail_skip = [(1, Some 1), (2, None)]"

section \<open>Doubles\<close>

lemma rne_of_int: "rne (of_int n) = n"
  by (simp add: rne_def)

lemma rne_cases: "rne q = \<lfloor>q\<rfloor> \<or> (rne q = \<lfloor>q\<rfloor> + 1 \<and> of_int \<lfloor>q\<rfloor> < q)"
  by (auto simp: rne_def Let_def)

lemma rne_le:
  assumes "q \<le> of_int n"
  shows "rne q \<le> n"
proof -
  have f: "\<lfloor>q\<rfloor> \<le> n" using assms by (simp add: floor_le_iff)
  show ?thesis
  proof (cases "rne q = \<lfloor>q\<rfloor>")
    case True
    with f show ?thesis by simp
  next
    case False
    with rne_cases [of q] have r: "rne q = \<lfloor>q\<rfloor> + 1" and lt: "of_int \<lfloor>q\<rfloor> < q" by auto
    from lt assms have "real_of_int \<lfloor>q\<rfloor> < of_int n" by linarith
    then have "\<lfloor>q\<rfloor> < n" by simp
    with r show ?thesis by simp
  qed
qed

lemma rne_ge:
  assumes "of_int n \<le> q"
  shows "n \<le> rne q"
proof -
  have "n \<le> \<lfloor>q\<rfloor>" using assms by (simp add: le_floor_iff)
  with rne_cases [of q] show ?thesis by auto
qed

lemma expo_pos_spec:
  "1 \<le> x \<Longrightarrow> 0 \<le> expo_pos x \<and> 2 powi expo_pos x \<le> x \<and> x < 2 powi (expo_pos x + 1)"
proof (induction x rule: expo_pos.induct)
  case (1 x)
  show ?case
  proof (cases "2 \<le> x")
    case True
    then have "1 \<le> x / 2" by simp
    from "1.IH" [OF True this]
    have ih: "0 \<le> expo_pos (x / 2)" "2 powi expo_pos (x / 2) \<le> x / 2"
      "x / 2 < 2 powi (expo_pos (x / 2) + 1)" by simp_all
    have e: "expo_pos x = expo_pos (x / 2) + 1"
      using True by (subst expo_pos.simps) simp
    have p: "2 powi (n + 1) = 2 powi n * (2 :: real)" for n
      by (rule power_int_add_1) simp
    define e' where "e' = expo_pos (x / 2)"
    have g1: "2 powi (e' + 1) = 2 * (2 :: real) powi e'"
      by (subst power_int_add) simp_all
    have g2: "2 powi (e' + 1 + 1) = 2 * (2 :: real) powi (e' + 1)"
      by (subst power_int_add [of 2 "e' + 1" 1]) simp_all
    have "2 powi e' \<le> x / 2" "x / 2 < 2 powi (e' + 1)"
      using "1.IH" [OF True \<open>1 \<le> x / 2\<close>] unfolding e'_def by blast+
    then have "2 * (2 :: real) powi e' \<le> x" "x < 2 * (2 * (2 :: real) powi e')"
      unfolding g1 by linarith+
    then have "0 \<le> e' + 1 \<and> 2 powi (e' + 1) \<le> x \<and> x < 2 powi (e' + 1 + 1)"
      unfolding g2 g1 using ih(1) unfolding e'_def [symmetric] by linarith
    then show ?thesis
      unfolding e e'_def .
  next
    case False
    then have e: "expo_pos x = 0" by (subst expo_pos.simps) simp
    show ?thesis unfolding e using False "1.prems" by simp
  qed
qed

lemma expo_neg_spec:
  "0 < x \<Longrightarrow> x < 1 \<Longrightarrow>
     - int (Suc n) \<le> expo_neg (Suc n) x \<and> x < 2 powi (expo_neg (Suc n) x + 1) \<and>
     (expo_neg (Suc n) x = - int (Suc n) \<or> 2 powi expo_neg (Suc n) x \<le> x)"
proof (induction n arbitrary: x)
  case 0
  then show ?case by simp
next
  case (Suc n)
  have p: "2 powi (k + 1) = 2 powi k * (2 :: real)" for k
    by (rule power_int_add_1) simp
  show ?case
  proof (cases "2 * x < 1")
    case True
    from Suc.IH [of "2 * x"] True Suc.prems
    have ih: "- int (Suc n) \<le> expo_neg (Suc n) (2 * x)"
      "2 * x < 2 powi (expo_neg (Suc n) (2 * x) + 1)"
      "expo_neg (Suc n) (2 * x) = - int (Suc n) \<or> 2 powi expo_neg (Suc n) (2 * x) \<le> 2 * x"
      by simp_all
    define e where "e = expo_neg (Suc n) (2 * x)"
    have r: "expo_neg (Suc (Suc n)) x = e - 1"
      using Suc.prems by (simp add: e_def)
    have q: "2 powi e = 2 powi (e - 1) * (2 :: real)"
      using p [of "e - 1"] by simp
    show ?thesis
      unfolding r using ih unfolding e_def [symmetric] by (auto simp: p q)
  next
    case False
    then have r: "expo_neg (Suc (Suc n)) x = - 1"
      using Suc.prems by simp
    show ?thesis
      unfolding r using False Suc.prems by simp
  qed
qed

lemma expo_spec:
  assumes "x \<noteq> 0"
  shows "- 1022 \<le> expo x" "\<bar>x\<bar> < 2 powi (expo x + 1)"
    "expo x = - 1022 \<or> 2 powi expo x \<le> \<bar>x\<bar>"
proof -
  have n: "(1022 :: nat) = Suc 1021" by simp
  have all: "- 1022 \<le> expo x \<and> \<bar>x\<bar> < 2 powi (expo x + 1) \<and>
             (expo x = - 1022 \<or> 2 powi expo x \<le> \<bar>x\<bar>)"
  proof (cases "1 \<le> \<bar>x\<bar>")
    case True
    with expo_pos_spec [OF True] show ?thesis by (simp add: expo_def)
  next
    case False
    then have "0 < \<bar>x\<bar>" "\<bar>x\<bar> < 1" using assms by simp_all
    from expo_neg_spec [OF this, of 1021] False show ?thesis
      unfolding expo_def n [symmetric] by simp
  qed
  from all show "- 1022 \<le> expo x" "\<bar>x\<bar> < 2 powi (expo x + 1)"
    "expo x = - 1022 \<or> 2 powi expo x \<le> \<bar>x\<bar>" by simp_all
qed

lemma fl_zero: "fl 0 = Fin 0"
  by (simp add: fl_def rne_def)

lemma fl_exact:
  assumes "\<bar>k\<bar> < 2 ^ 53" "- 1074 \<le> p" "p \<le> 971"
  shows "fl (of_int k * 2 powi p) = Fin (of_int k * 2 powi p)"
proof (cases "k = 0")
  case True
  then show ?thesis by (simp add: fl_zero)
next
  case False
  define x :: real where "x = of_int k * 2 powi p"
  define e where "e = expo x"
  have x0: "x \<noteq> 0" using False by (simp add: x_def)
  have ax: "\<bar>x\<bar> = of_int \<bar>k\<bar> * 2 powi p" by (simp add: x_def abs_mult)
  have "real_of_int \<bar>k\<bar> < 2 ^ 53" using assms(1) by (metis of_int_less_numeral_power_cancel_iff)
  then have lt: "\<bar>x\<bar> < 2 powi (p + 53)"
    unfolding ax by (subst power_int_add) (simp_all add: mult.commute)
  have "e \<le> p + 52"
  proof (cases "e = - 1022")
    case True
    with assms(2) show ?thesis by simp
  next
    case False
    with expo_spec(3) [OF x0] have "2 powi e \<le> \<bar>x\<bar>" by (simp add: e_def)
    with lt have "(2 :: real) powi e < 2 powi (p + 53)" by simp
    then have "e < p + 53"
      by (metis not_le one_le_numeral power_int_increasing leD)
    then show ?thesis by simp
  qed
  then obtain j where j: "p + 52 - e = int j" using nat_0_le [of "p + 52 - e"] by (metis diff_ge_0_iff_ge)
  have d: "x / 2 powi (e - 52) = of_int k * 2 powi (p - (e - 52))"
    unfolding x_def by (subst power_int_diff) simp_all
  have "p - (e - 52) = int j" using j by simp
  then have q: "x / 2 powi (e - 52) = of_int (k * 2 ^ j)"
    unfolding d by simp
  have r: "of_int (rne (x / 2 powi (e - 52))) * 2 powi (e - 52) = x"
    unfolding q rne_of_int unfolding q [symmetric] by simp
  have "\<bar>x\<bar> < 2 powi (p + 53)" by (rule lt)
  also have "\<dots> \<le> 2 powi 1024" using assms(3) by (intro power_int_increasing) simp_all
  finally have "\<not> 2 ^ 1024 \<le> \<bar>x\<bar>" by simp
  then show ?thesis
    unfolding fl_def Let_def x_def [symmetric] e_def [symmetric] r by simp
qed

lemma fl_of_int: "\<bar>k\<bar> < 2 ^ 53 \<Longrightarrow> fl (of_int k) = Fin (of_int k)"
  using fl_exact [of k 0] by simp

lemma fl_of_nat: "n < 2 ^ 53 \<Longrightarrow> fl (real n) = Fin (real n)"
  using fl_of_int [of "int n"] by simp

lemma fl_bounded:
  assumes "0 \<le> x" "x \<le> real k" "k < 2 ^ 53"
  shows "\<exists>r. fl x = Fin r \<and> 0 \<le> r \<and> r \<le> real k"
proof (cases "x = 0")
  case True
  then show ?thesis by (simp add: fl_zero)
next
  case False
  define e where "e = expo x"
  have k53: "real k < 2 ^ 53" using assms(3) by (metis of_nat_less_numeral_power_cancel_iff)
  have "e \<le> 52"
  proof (cases "e = - 1022")
    case True
    then show ?thesis by simp
  next
    case False
    with expo_spec(3) [OF \<open>x \<noteq> 0\<close>] have "2 powi e \<le> \<bar>x\<bar>" by (simp add: e_def)
    with assms(1,2) k53 have "(2 :: real) powi e < 2 powi 53" by simp
    then have "e < 53"
      by (metis not_le one_le_numeral power_int_increasing leD)
    then show ?thesis by simp
  qed
  then obtain j where j: "52 - e = int j" using nat_0_le [of "52 - e"] by (metis diff_ge_0_iff_ge)
  define N :: int where "N = 2 ^ j"
  have N0: "0 < N" by (simp add: N_def)
  have u: "2 powi (e - 52) = 1 / real_of_int N"
  proof -
    have "e - 52 = - int j" using j by simp
    then show ?thesis by (simp add: power_int_minus N_def divide_inverse)
  qed
  define z where "z = rne (x * of_int N)"
  have "x * of_int N \<le> of_int (int k * N)" using assms(2) N0 by simp
  then have zle: "z \<le> int k * N" unfolding z_def by (rule rne_le)
  have "of_int 0 \<le> x * of_int N" using assms(1) N0 by simp
  then have zge: "0 \<le> z" unfolding z_def by (rule rne_ge)
  define r where "r = real_of_int z / of_int N"
  have r0: "0 \<le> r" using zge N0 by (simp add: r_def)
  have "real_of_int z \<le> real k * of_int N" using zle by (metis of_int_le_iff of_int_mult of_int_of_nat_eq)
  then have rk: "r \<le> real k" using N0 by (simp add: r_def field_simps)
  have "\<bar>r\<bar> < 2 ^ 1024" using r0 rk k53 by (simp add: power_strict_increasing_iff [of 2 53 1024, symmetric]) 
  then have "fl x = Fin r"
    unfolding fl_def Let_def e_def [symmetric] u by (simp add: r_def z_def)
  with r0 rk show ?thesis by blast
qed

lemma fl_cases: "(\<exists>r. fl x = Fin r) \<or> (\<exists>s. fl x = Inf s)"
  by (simp add: fl_def Let_def)

lemma fl_one: "fl 1 = Fin 1"
  using fl_of_nat [of 1] by simp

lemma fl_numeral: "(numeral k :: nat) < 2 ^ 53 \<Longrightarrow> fl (numeral k) = Fin (numeral k)"
  using fl_of_nat [of "numeral k"] by simp

lemma fl_neg_one: "fl (- 1) = Fin (- 1)"
  using fl_of_int [of "- 1"] by simp

lemma fl_neg_numeral:
  "(numeral k :: nat) < 2 ^ 53 \<Longrightarrow> fl (- numeral k) = Fin (- numeral k)"
proof -
  assume "(numeral k :: nat) < 2 ^ 53"
  then have "int (numeral k) < 2 ^ 53" by (metis of_nat_less_numeral_power_cancel_iff)
  then have "\<bar>- numeral k :: int\<bar> < 2 ^ 53" by simp
  from fl_of_int [OF this] show ?thesis by simp
qed

lemma fl_half: "fl (1 / 2) = Fin (1 / 2)"
  using fl_exact [of 1 "- 1"] by simp

lemma fl_pred:
  assumes "d < 2 ^ 53"
  shows "fl (real d - 1) = Fin (real d - 1)"
proof -
  have "int d < 2 ^ 53" using assms by (metis of_nat_less_numeral_power_cancel_iff)
  then have "\<bar>int d - 1\<bar> < 2 ^ 53" by simp
  from fl_of_int [OF this] show ?thesis by simp
qed

lemma spec_px_cases:
  assumes "d < 2 ^ 53"
  shows "(\<exists>i. spec_px d v = Fin (of_int i)) \<or> (\<exists>s. spec_px d v = Inf s)"
  using fl_cases [of "v * (real d - 1)"]
  by (auto simp: spec_px_def fl_pred [OF assms])

lemma expo_eqI:
  assumes "x \<noteq> 0" "- 1022 \<le> e" "\<bar>x\<bar> < 2 powi (e + 1)" "e = - 1022 \<or> 2 powi e \<le> \<bar>x\<bar>"
  shows "expo x = e"
proof (rule ccontr)
  assume ne: "expo x \<noteq> e"
  note sp = expo_spec [OF assms(1)]
  show False
  proof (cases "expo x < e")
    case True
    then have "e \<noteq> - 1022" using sp(1) by simp
    with assms(4) have "2 powi e \<le> \<bar>x\<bar>" by simp
    also have "\<bar>x\<bar> < 2 powi (expo x + 1)" by (rule sp(2))
    also have "(2 :: real) powi (expo x + 1) \<le> 2 powi e"
      using True by (intro power_int_increasing) simp_all
    finally show False by simp
  next
    case False
    with ne have lt: "e < expo x" by simp
    then have "expo x \<noteq> - 1022" using assms(2) by simp
    with sp(3) have "2 powi expo x \<le> \<bar>x\<bar>" by simp
    also have "\<bar>x\<bar> < 2 powi (e + 1)" by (rule assms(3))
    also have "(2 :: real) powi (e + 1) \<le> 2 powi expo x"
      using lt by (intro power_int_increasing) simp_all
    finally show False by simp
  qed
qed

text \<open>The transform on doubles whose product with the scale is a tie or crosses a
  half: \<open>0.35\<close> at width 11 (the product rounds to \<open>3.5\<close>, column 4), \<open>-0.1\<close> at
  width 6 (the product rounds to \<open>-0.5\<close>, column 0) and \<open>1.025\<close> at width 21 (the
  product rounds to \<open>20.5\<close>, column 21).\<close>

lemma double_of_035: "double_of (35 / 100) = 3152519739159347 / 2 ^ 53"
proof -
  have e: "expo (35 / 100) = - 2"
    by (rule expo_eqI) simp_all
  show ?thesis
    unfolding double_of_def fl_def Let_def e by (simp add: rne_def Let_def)
qed

lemma fl_035_times_10: "fl (double_of (35 / 100) * 10) = Fin (7 / 2)"
proof -
  have e: "expo (3152519739159347 / 2 ^ 53 * 10) = 1"
    by (rule expo_eqI) simp_all
  show ?thesis
    unfolding double_of_035 fl_def Let_def e by (simp add: rne_def Let_def)
qed

lemma double_rounding_example:
  "xy_norm_to_px (js_trail [(double_of (35 / 100), 0)]) 11 1 = Inr [(Fin 4, Fin 0)]"
proof -
  have "spec_px 11 (double_of (35 / 100)) = Fin 4"
    using fl_035_times_10 by (simp add: spec_px_def fl_numeral round_def)
  moreover have "spec_px 1 0 = Fin 0"
    by (simp add: spec_px_def fl_zero)
  ultimately show ?thesis
    by (simp add: xy_norm_to_px_def xy_to_px_def js_trail_def spec_px_def)
qed

lemma double_rounding_edges:
  "spec_px 6 (double_of (- 1 / 10)) = Fin 0"
  "spec_px 21 (double_of (1025 / 1000)) = Fin 21"
proof -
  have e1: "expo (- 1 / 10) = - 4" by (rule expo_eqI) simp_all
  have d1: "double_of (- 1 / 10) = - 3602879701896397 / 2 ^ 55"
    unfolding double_of_def fl_def Let_def e1 by (simp add: rne_def Let_def)
  have e2: "expo (- 3602879701896397 / 2 ^ 55 * 5) = - 1" by (rule expo_eqI) simp_all
  have "fl (double_of (- 1 / 10) * 5) = Fin (- 1 / 2)"
    unfolding d1 fl_def Let_def e2 by (simp add: rne_def Let_def)
  then show "spec_px 6 (double_of (- 1 / 10)) = Fin 0"
    by (simp add: spec_px_def fl_numeral round_def)
  have e3: "expo (1025 / 1000) = 0" by (rule expo_eqI) simp_all
  have d3: "double_of (1025 / 1000) = 4616189618054758 / 2 ^ 52"
    unfolding double_of_def fl_def Let_def e3 by (simp add: rne_def Let_def)
  have e4: "expo (4616189618054758 / 2 ^ 52 * 20) = 4" by (rule expo_eqI) simp_all
  have "fl (double_of (1025 / 1000) * 20) = Fin (41 / 2)"
    unfolding d3 fl_def Let_def e4 by (simp add: rne_def Let_def)
  then show "spec_px 21 (double_of (1025 / 1000)) = Fin 21"
    by (simp add: spec_px_def fl_numeral round_def)
qed

section \<open>Shape normalisation\<close>

lemma convert_empty: "convert_to_list_of_trails (Arr []) = Inl TypeError"
  by (simp add: convert_to_list_of_trails_def)

lemma convert_first_empty:
  "convert_to_list_of_trails (Arr (Arr [] # rest)) = Inl TypeError"
  by (simp add: convert_to_list_of_trails_def)

lemma convert_first_elem:
  "convert_to_list_of_trails (Arr (Arr (e # es) # rest)) =
     (case e of
        Undefined \<Rightarrow> Inl TypeError
      | Num n \<Rightarrow> Inr (Arr [Arr (Arr (e # es) # rest)])
      | Arr xs \<Rightarrow> Inr (Arr (Arr (e # es) # rest)))"
  by (simp add: convert_to_list_of_trails_def split: jsval.splits)

lemma convert_zero_points:
  "concat ts = [] \<Longrightarrow> convert_to_list_of_trails (js_trail_set ts) = Inl TypeError"
  by (cases ts) (simp_all add: js_trail_set_def js_trail_def convert_to_list_of_trails_def)

lemma convert_trail_set:
  "convert_to_list_of_trails (js_trail_set ((p # ps) # rest)) =
     Inr (js_trail_set ((p # ps) # rest))"
  by (cases p) (simp add: convert_to_list_of_trails_def js_trail_set_def js_trail_def)

lemma convert_trail:
  "convert_to_list_of_trails (js_trail (p # ps)) = Inr (Arr [js_trail (p # ps)])"
  by (cases p) (simp add: convert_to_list_of_trails_def js_trail_def)


lemma convert_partial_trail:
  "convert_to_list_of_trails (Arr (map js_partial_point (q # qs))) =
     Inr (Arr [Arr (map js_partial_point (q # qs))])"
proof (cases q)
  case (Pair x yo)
  then show ?thesis
    by (cases yo) (simp_all add: convert_to_list_of_trails_def)
qed

section \<open>Scoring\<close>

lemma flat_trail_set: "flat (js_trail_set ts) = Inr (js_trail (concat ts))"
  by (simp add: js_trail_set_def js_trail_def map_concat comp_def)

lemma xy_to_px_partial:
  "xy_to_px (js_sub (Fin (real wd)) (Fin 1)) (js_sub (Fin (real ht)) (Fin 1))
     (js_partial_point q) = Inr (px_partial wd ht q)"
proof (cases q)
  case (Pair x yo)
  then show ?thesis
    by (cases yo) (simp_all add: xy_to_px_def spec_px_def)
qed

lemma xy_norm_to_px_partial:
  "xy_norm_to_px (Arr (map js_partial_point qs)) wd ht = Inr (map (px_partial wd ht) qs)"
proof -
  have "map_err (xy_to_px (js_sub (Fin (real wd)) (Fin 1)) (js_sub (Fin (real ht)) (Fin 1)))
          (map js_partial_point qs) = Inr (map (px_partial wd ht) qs)"
    by (induction qs) (simp_all add: xy_to_px_partial del: js_sub.simps)
  then show ?thesis by (simp add: xy_norm_to_px_def del: js_sub.simps)
qed

lemma js_point_complete: "js_point p = js_partial_point (complete p)"
  by (cases p) (simp add: complete_def)

lemma px_pair_complete: "px_pair wd ht p = px_partial wd ht (complete p)"
  by (cases p) (simp add: complete_def px_pair_def)

lemma partial_sample_complete:
  "partial_sample data wd ht (complete p) = spec_sample data wd ht p"
  by (cases p) (simp add: complete_def)

lemma xy_norm_to_px_trail:
  "xy_norm_to_px (js_trail ps) wd ht = Inr (map (px_pair wd ht) ps)"
proof -
  have eq: "js_trail ps = Arr (map js_partial_point (map complete ps))"
    by (simp add: js_trail_def js_point_complete comp_def)
  show ?thesis
    unfolding eq xy_norm_to_px_partial by (simp add: px_pair_complete comp_def)
qed

text \<open>The index \<open>(y * w + x) * 4\<close> of a pixel inside the raster is computed without
  rounding and is an index of the data array.\<close>

lemma pixel_index:
  assumes "0 \<le> i" "i < int wd" "0 \<le> j" "j < int ht" "4 * wd * ht < 2 ^ 53"
  shows "js_mul (js_add (js_mul (Fin (of_int j)) (Fin (real wd))) (Fin (of_int i))) (Fin 4) =
           Fin (real (4 * (nat j * wd + nat i)))"
proof -
  obtain a b where ab: "i = int a" "j = int b"
    using assms(1,3) by (metis nat_0_le)
  have lt: "a < wd" "b < ht" using assms(2,4) ab by simp_all
  have "b * wd + a < b * wd + wd" using lt by simp
  also have "\<dots> = Suc b * wd" by simp
  also have "\<dots> \<le> ht * wd" using lt by (intro mult_le_mono1) simp
  finally have bound: "4 * (b * wd + a) < 2 ^ 53"
    using assms(5) by (simp add: mult.commute)
  then have b1: "b * wd < 2 ^ 53" and b2: "b * wd + a < 2 ^ 53" by simp_all
  have "js_mul (Fin (of_int j)) (Fin (real wd)) = Fin (real (b * wd))"
    using fl_of_nat [OF b1] by (simp add: ab)
  moreover have "js_add (Fin (real (b * wd))) (Fin (of_int i)) = Fin (real (b * wd + a))"
    using fl_of_nat [OF b2] by (simp add: ab)
  moreover have "js_mul (Fin (real (b * wd + a))) (Fin 4) = Fin (real (4 * (b * wd + a)))"
    using fl_of_nat [OF bound] by (simp add: mult.commute)
  ultimately show ?thesis by (simp add: ab)
qed

lemma typed_array_get_nat:
  "n < length data \<Longrightarrow> typed_array_get data (Fin (real n)) = Some (unat (data ! n))"
  by simp

lemma unat_byte_le: "unat (b :: 8 word) \<le> 255"
  using unsigned_less [of b, where ?'a = nat] by simp

lemma compare_loop_partial:
  assumes "valid_raster m data"
    and "\<And>x. (x, None) \<in> set qs \<Longrightarrow> \<not> coord_in_range (w m) (spec_px (w m) x)"
    and "acc + 255 * length qs < 2 ^ 53"
  shows "compare_loop m (map (px_partial (w m) (h m)) qs) (Fin (real acc)) =
           Inr (Fin (real (acc + sum_list (map (partial_sample data (w m) (h m)) qs))))"
  using assms(2,3)
proof (induction qs arbitrary: acc)
  case Nil
  show ?case by simp
next
  case (Cons q qs)
  from assms(1) have im: "img m = Some data" and len: "length data = 4 * w m * h m"
    and pos: "0 < w m" "0 < h m" and big: "length data < 2 ^ 53"
    unfolding valid_raster_def by blast+
  have whb: "4 * w m * h m < 2 ^ 53" using len big by simp
  have wb: "w m < 2 ^ 53"
  proof -
    have "w m \<le> w m * (4 * h m)" using pos by simp
    also have "\<dots> = 4 * w m * h m" by simp
    finally show ?thesis using whb by linarith
  qed
  have hb: "h m < 2 ^ 53"
  proof -
    have "h m \<le> h m * (4 * w m)" using pos by simp
    also have "\<dots> = 4 * w m * h m" by simp
    finally show ?thesis using whb by linarith
  qed
  have rest: "compare_loop m (map (px_partial (w m) (h m)) qs) (Fin (real a)) =
           Inr (Fin (real (a + sum_list (map (partial_sample data (w m) (h m)) qs))))"
    if "a + 255 * length qs < 2 ^ 53" for a
    using Cons.IH [OF _ that] Cons.prems(1) by simp
  have acc0: "acc + 255 * length qs < 2 ^ 53" using Cons.prems(2) by simp
  obtain x yo where q: "q = (x, yo)" by (cases q)
  consider (xinf) s where "spec_px (w m) x = Inf s"
    | (xfin) i where "spec_px (w m) x = Fin (of_int i)"
    using spec_px_cases [OF wb, of x] by blast
  then show ?case
  proof cases
    case xinf
    have z: "partial_sample data (w m) (h m) q = 0"
      unfolding q using xinf
      by (cases yo) (simp_all add: spec_sample_def spec_in_bounds_def)
    have "compare_loop m (map (px_partial (w m) (h m)) (q # qs)) (Fin (real acc)) =
            compare_loop m (map (px_partial (w m) (h m)) qs) (Fin (real acc))"
      unfolding q using xinf by (cases yo; cases s) simp_all
    then show ?thesis using rest [OF acc0] z by simp
  next
    case xfin
    show ?thesis
    proof (cases "0 \<le> i \<and> i < int (w m)")
      case False
      have z: "partial_sample data (w m) (h m) q = 0"
        unfolding q using xfin False
        by (cases yo) (auto simp: spec_sample_def spec_in_bounds_def)
      have "compare_loop m (map (px_partial (w m) (h m)) (q # qs)) (Fin (real acc)) =
              compare_loop m (map (px_partial (w m) (h m)) qs) (Fin (real acc))"
        unfolding q using xfin False by (cases yo) auto
      then show ?thesis using rest [OF acc0] z by simp
    next
      case xin: True
      then have cr: "coord_in_range (w m) (spec_px (w m) x)"
        using xfin by simp
      with Cons.prems(1) [of x] obtain y where yo: "yo = Some y"
        unfolding q by (cases yo) auto
      consider (yinf) s where "spec_px (h m) y = Inf s"
        | (yfin) j where "spec_px (h m) y = Fin (of_int j)"
        using spec_px_cases [OF hb, of y] by blast
      then show ?thesis
      proof cases
        case yinf
        have z: "partial_sample data (w m) (h m) q = 0"
          unfolding q yo using yinf by (simp add: spec_sample_def spec_in_bounds_def)
        have "compare_loop m (map (px_partial (w m) (h m)) (q # qs)) (Fin (real acc)) =
                compare_loop m (map (px_partial (w m) (h m)) qs) (Fin (real acc))"
          unfolding q yo using xfin yinf by (cases s) simp_all
        then show ?thesis using rest [OF acc0] z by simp
      next
        case yfin
        show ?thesis
        proof (cases "0 \<le> j \<and> j < int (h m)")
          case False
          have z: "partial_sample data (w m) (h m) q = 0"
            unfolding q yo using yfin False by (auto simp: spec_sample_def spec_in_bounds_def)
          have "compare_loop m (map (px_partial (w m) (h m)) (q # qs)) (Fin (real acc)) =
                  compare_loop m (map (px_partial (w m) (h m)) qs) (Fin (real acc))"
            unfolding q yo using xfin yfin False by auto
          then show ?thesis using rest [OF acc0] z by simp
        next
          case yin: True
          define n where "n = 4 * (nat j * w m + nat i)"
          define v where "v = unat (data ! n)"
          have idx: "js_mul (js_add (js_mul (Fin (of_int j)) (Fin (real (w m))))
                       (Fin (of_int i))) (Fin 4) = Fin (real n)"
            unfolding n_def using xin yin whb by (intro pixel_index) simp_all
          have nlt: "n < length data"
          proof -
            have "nat i < w m" "nat j < h m" using xin yin by linarith+
            then have "nat j * w m + nat i < nat j * w m + w m" by simp
            also have "\<dots> = Suc (nat j) * w m" by simp
            also have "\<dots> \<le> h m * w m" using \<open>nat j < h m\<close> by (intro mult_le_mono1) simp
            finally show ?thesis by (simp add: n_def len mult.commute)
          qed
          have vle: "v \<le> 255" unfolding v_def by (rule unat_byte_le)
          have s: "partial_sample data (w m) (h m) q = v"
            unfolding q yo using xfin yfin xin yin
            by (simp add: spec_sample_def spec_in_bounds_def v_def n_def)
          have av: "acc + v < 2 ^ 53" using Cons.prems(2) vle by simp
          have add: "js_add (Fin (real acc)) (Fin (real v)) = Fin (real (acc + v))"
            using fl_of_nat [OF av] by simp
          have av': "(acc + v) + 255 * length qs < 2 ^ 53" using Cons.prems(2) vle by simp
          have "compare_loop m (map (px_partial (w m) (h m)) (q # qs)) (Fin (real acc)) =
                  compare_loop m (map (px_partial (w m) (h m)) qs) (Fin (real (acc + v)))"
            unfolding q yo using xfin yfin xin yin im idx add
              typed_array_get_nat [OF nlt]
            by (simp add: Let_def v_def del: js_mul.simps js_add.simps typed_array_get.simps)
          then show ?thesis using rest [OF av'] s by (simp add: add.assoc)
        qed
      qed
    qed
  qed
qed

lemma array_sum_bound: "n < 2 ^ 32 \<Longrightarrow> 0 + 255 * n < (2 :: nat) ^ 53"
  by simp

lemma compare_loop_points:
  assumes "valid_raster m data" "length pts < 2 ^ 32"
  shows "compare_loop m (map (px_pair (w m) (h m)) pts) (Fin 0) =
           Inr (Fin (real (sum_list (map (spec_sample data (w m) (h m)) pts))))"
proof -
  have "compare_loop m (map (px_partial (w m) (h m)) (map complete pts)) (Fin (real 0)) =
          Inr (Fin (real (0 + sum_list (map (partial_sample data (w m) (h m))
                                          (map complete pts)))))"
  proof (rule compare_loop_partial [OF assms(1)])
    show "\<not> coord_in_range (w m) (spec_px (w m) x)" if "(x, None) \<in> set (map complete pts)" for x
      using that by (auto simp: complete_def)
    show "0 + 255 * length (map complete pts) < 2 ^ 53"
      using array_sum_bound [OF assms(2)] by simp
  qed
  then show ?thesis
    by (simp add: comp_def px_pair_complete [symmetric] partial_sample_complete)
qed

lemma compare_trail_set:
  assumes "valid_raster m data" "length ((p # ps) @ concat rest) < 2 ^ 32"
  shows "compare m (js_trail_set ((p # ps) # rest)) =
           Inr (spec_score data (w m) (h m) ((p # ps) @ concat rest))"
proof -
  define pts where "pts = (p # ps) @ concat rest"
  have mv: "mask_value m = 255" using assms(1) by (simp add: valid_raster_def)
  have fl: "flat (js_trail_set ((p # ps) # rest)) = Inr (js_trail pts)"
    by (simp add: flat_trail_set pts_def)
  have lp: "compare_loop m (map (px_pair (w m) (h m)) pts) (Fin 0) =
              Inr (Fin (real (sum_list (map (spec_sample data (w m) (h m)) pts))))"
    using compare_loop_points [OF assms(1), of pts] assms(2) by (simp add: pts_def)
  have "compare m (js_trail_set ((p # ps) # rest)) = Inr (spec_score data (w m) (h m) pts)"
    by (simp add: compare_def convert_trail_set fl xy_norm_to_px_trail lp mv spec_score_def
        del: compare_loop.simps flat.simps js_div.simps)
  then show ?thesis by (simp add: pts_def)
qed



lemma valid_example: "valid_raster example_mask example_data"
  by (simp add: valid_raster_def example_mask_def example_data_def)

lemma spec_px_example:
  "spec_px 2 0 = Fin 0" "spec_px 2 1 = Fin 1" "spec_px 2 2 = Fin 2"
  "spec_px 2 (- 1) = Fin (- 1)" "spec_px 2 (1 / 2) = Fin 1"
  by (simp_all add: spec_px_def fl_zero fl_one fl_numeral fl_neg_one fl_half round_def)















section \<open>The update without arguments, empty queries, the shape probe\<close>

text \<open>
  C9. Calling \<open>update_mask_parameters\<close> with the trails, the thickness and the blur
  size all \<open>null\<close> returns the object as it was (stored trails, thickness, blur size
  and image data included; the canvas functions are not called, so nothing is drawn
  again) and writes one warning to the console.
\<close>

theorem update_all_null_is_noop:
  "update_mask_parameters br m None None None =
     Inr ([''No parameters given when updating mask! Ignoring update''], m)"
  by (simp add: update_mask_parameters_def)

text \<open>
  C2. A query with no point at all, that is the empty list or a trail set whose
  trails are all empty, makes \<open>compare\<close> throw: the call ends with the exception
  \<open>TypeError\<close> raised by the shape probe and returns no score.
\<close>

theorem compare_zero_points_throws:
  "length (concat ts) = 0 \<Longrightarrow> compare m (js_trail_set ts) = Inl TypeError"
  by (simp add: compare_def convert_zero_points)

theorem compare_zero_points_throws_witness:
  "length (concat [[], [] :: point list]) = 0 \<and>
   compare example_mask (js_trail_set [[], []]) = Inl TypeError \<and>
   length (concat ([] :: point list list)) = 0 \<and>
   compare example_mask (js_trail_set []) = Inl TypeError"
  using compare_zero_points_throws [of "[[], []]" example_mask]
    compare_zero_points_throws [of "[]" example_mask]
  by simp

text \<open>
  C10. \<open>_convert_to_list_of_trails\<close> decides between a single trail and a list of
  trails from element \<open>[0][0]\<close> of its input alone: when the first trail has a first
  element, the result depends on that element only. When the input is \<open>[]\<close> or its
  first trail is empty, the probe reads a property of \<open>undefined\<close>, and the helper,
  \<open>compare\<close>, \<open>update_mask_parameters\<close> with trails and the constructor all throw,
  whatever the other trails are.
\<close>

theorem first_trail_empty_throws:
  "convert_to_list_of_trails (Arr (Arr (e # es) # rest)) =
     (case e of
        Undefined \<Rightarrow> Inl TypeError
      | Num n \<Rightarrow> Inr (Arr [Arr (Arr (e # es) # rest)])
      | Arr xs \<Rightarrow> Inr (Arr (Arr (e # es) # rest))) \<and>
   convert_to_list_of_trails (Arr []) = Inl TypeError \<and>
   convert_to_list_of_trails (Arr (Arr [] # rest)) = Inl TypeError \<and>
   compare m (Arr []) = Inl TypeError \<and>
   compare m (Arr (Arr [] # rest)) = Inl TypeError \<and>
   update_mask_parameters br m (Some (Arr [])) th bl = Inl TypeError \<and>
   update_mask_parameters br m (Some (Arr (Arr [] # rest))) th bl = Inl TypeError \<and>
   constructor br (Some (Arr [])) mw mh th bl = Inl TypeError \<and>
   constructor br (Some (Arr (Arr [] # rest))) mw mh th bl = Inl TypeError"
  by (simp add: compare_def update_mask_parameters_def constructor_def
      convert_empty convert_first_empty convert_first_elem)


section \<open>Rasterising an empty or a well-formed trail set\<close>

lemma trail_path_cons:
  "trail_path (a # rest) =
     Inr (MoveTo (fst a) (snd a) # map (\<lambda>r. LineTo (fst r) (snd r)) rest)"
  by (cases a) (simp add: split_def)

lemma length_black: "length (concat (replicate n [a, b, c, d])) = 4 * n"
  by (induction n) simp_all

lemma generate_mask_no_trail_data:
  assumes "trails_xy_norm m = Arr []" "0 < w m" "0 < h m"
  shows "generate_mask br m =
           Inr (m\<lparr>img := Some (concat (replicate (w m * h m) [0, 0, 0, 255]))\<rparr>)"
  using assms by (simp add: generate_mask_def get_image_data_def)

lemma constructor_null_trails:
  assumes "0 < mw" "0 < mh"
  shows "constructor br None mw mh (Some t) bl =
           Inr ([], \<lparr>w = mw, h = mh,
                     img = Some (concat (replicate (mw * mh) [0, 0, 0, 255])),
                     mask_value = 255, thickness = Some t, blur_size = bl,
                     trails_xy_norm = Arr []\<rparr>)"
  using assms
  by (cases bl) (simp_all add: constructor_def update_mask_parameters_def generate_mask_no_trail_data)

text \<open>
  C3, on the code: constructing or updating a mask with the empty trail set \<open>[]\<close>, or
  with the trail set \<open>[[]]\<close> of one empty trail, throws a \<open>TypeError\<close> in the shape
  probe, before \<open>_generate_mask\<close> and its branch for an empty list of trails are
  reached. That branch stores the black image (\<open>generate_mask_no_trail_data\<close>), and
  the constructor reaches it when its trails are \<open>null\<close> (\<open>constructor_null_trails\<close>).
\<close>

theorem empty_trail_set_mask_throws:
  "constructor br (Some (js_trail_set [])) mw mh th bl = Inl TypeError \<and>
   constructor br (Some (js_trail_set [[]])) mw mh th bl = Inl TypeError \<and>
   update_mask_parameters br m (Some (js_trail_set [])) th bl = Inl TypeError \<and>
   update_mask_parameters br m (Some (js_trail_set [[]])) th bl = Inl TypeError"
  by (simp add: constructor_def update_mask_parameters_def convert_zero_points)

lemma trails_path_well_formed:
  "well_formed ts \<Longrightarrow> \<exists>path. trails_path (map js_trail ts) wd ht = Inr path"
proof (induction ts)
  case Nil
  show ?case by simp
next
  case (Cons t ts)
  then obtain p ps where t: "t = p # ps" by (cases t) (auto simp: well_formed_def)
  from Cons obtain path where "trails_path (map js_trail ts) wd ht = Inr path"
    by (auto simp: well_formed_def)
  then show ?case
    by (simp add: t xy_norm_to_px_trail trail_path_cons)
qed

lemma draw_trails_well_formed:
  assumes "well_formed ts" "ts \<noteq> []"
    and "trails_path (map js_trail ts) (canvas_width c) (canvas_height c) = Inr path"
  shows "draw_trails br c (js_trail_set ts) False = Inr (c\<lparr>pixels := stroke_path br c path\<rparr>)"
proof -
  from assms obtain p ps rest where ts: "ts = (p # ps) # rest"
    by (cases ts; cases "hd ts") (auto simp: well_formed_def)
  have cv: "convert_to_list_of_trails (js_trail_set ts) = Inr (Arr (map js_trail ts))"
    unfolding ts using convert_trail_set [of p ps rest] by (simp add: js_trail_set_def)
  show ?thesis
    using assms(3) by (simp add: draw_trails_def cv)
qed

lemma generate_mask_well_formed:
  assumes "trails_xy_norm m = js_trail_set ts" "well_formed ts" "ts \<noteq> []" "0 < w m" "0 < h m"
  shows "\<exists>d. generate_mask br m = Inr (m\<lparr>img := Some d\<rparr>)"
proof -
  obtain path where path: "trails_path (map js_trail ts) (w m) (h m) = Inr path"
    using trails_path_well_formed [OF assms(2)] by blast
  have dt: "draw_trails br c (js_trail_set ts) False =
              Inr (c\<lparr>pixels := stroke_path br c path\<rparr>)"
    if "canvas_width c = w m" "canvas_height c = h m" for c
    using draw_trails_well_formed [OF assms(2,3), of c path br] path that by simp
  have len: "get_length (js_trail_set ts) = Inr (Num (Fin (real (length ts))))"
    by (simp add: js_trail_set_def)
  show ?thesis
  proof (cases "blur_size m")
    case None
    then show ?thesis
      using assms(3,4,5)
      by (cases "thickness m")
         (auto simp add: generate_mask_def assms(1) len Let_def dt get_image_data_def
          set_line_width_def)
  next
    case (Some b)
    then show ?thesis
      using assms(3,4,5)
      by (cases "thickness m")
         (auto simp add: generate_mask_def assms(1) len Let_def dt get_image_data_def
          set_line_width_def)
  qed
qed

lemma constructor_well_formed:
  assumes "well_formed ts" "ts \<noteq> []" "0 < mw" "0 < mh"
  shows "\<exists>d. constructor br (Some (js_trail_set ts)) mw mh th bl =
           Inr ([], \<lparr>w = mw, h = mh, img = Some d, mask_value = 255,
                     thickness = th, blur_size = bl, trails_xy_norm = js_trail_set ts\<rparr>)"
proof -
  from assms obtain p ps rest where ts: "ts = (p # ps) # rest"
    by (cases ts; cases "hd ts") (auto simp: well_formed_def)
  have cv: "convert_to_list_of_trails (js_trail_set ts) = Inr (js_trail_set ts)"
    unfolding ts by (rule convert_trail_set)
  define m where "m = \<lparr>w = mw, h = mh, img = None, mask_value = 255,
                     thickness = th, blur_size = bl, trails_xy_norm = js_trail_set ts\<rparr>"
  obtain d where "generate_mask br m = Inr (m\<lparr>img := Some d\<rparr>)"
    using generate_mask_well_formed [of m ts br] assms by (auto simp: m_def)
  then show ?thesis
    by (cases th; cases bl) (simp_all add: constructor_def update_mask_parameters_def cv m_def)
qed

text \<open>Every object the constructor returns after drawing has image data of the
  size of its raster and the mask value \<open>255\<close>: the masks the scoring theorems
  are about.\<close>

lemma draw_trails_size:
  assumes "draw_trails br c t False = Inr c'" "keeps_size br"
  shows "length (pixels c') = length (pixels c) \<and> canvas_width c' = canvas_width c \<and>
         canvas_height c' = canvas_height c"
  using assms
  by (auto simp: draw_trails_def keeps_size_def split: sum.splits jsval.splits)

lemma generate_mask_size:
  assumes "generate_mask br m = Inr m'" "keeps_size br"
  shows "\<exists>d. m' = m\<lparr>img := Some d\<rparr> \<and> length d = 4 * w m * h m"
proof -
  note ds = draw_trails_size [OF _ assms(2)]
  have ks: "length (draw_self br c) = length (pixels c)" for c
    using assms(2) by (simp add: keeps_size_def)
  show ?thesis
    using assms(1)
    by (auto simp: generate_mask_def Let_def get_image_data_def set_line_width_def
          length_black ks
        split: sum.splits if_splits option.splits dest!: ds)
qed

lemma constructor_size:
  assumes "constructor br trails mw mh th bl = Inr (out, m)" "keeps_size br"
    and "trails \<noteq> None \<or> th \<noteq> None \<or> bl \<noteq> None"
  shows "\<exists>d. img m = Some d \<and> length d = 4 * w m * h m \<and> mask_value m = 255 \<and>
             w m = mw \<and> h m = mh"
  using assms(1,3)
  by (auto simp: constructor_def update_mask_parameters_def Let_def
      split: sum.splits if_splits option.splits dest!: generate_mask_size [OF _ assms(2)])


lemma constructor_valid_raster:
  assumes "constructor br trails mw mh th bl = Inr (out, m)" "keeps_size br"
    and "trails \<noteq> None \<or> th \<noteq> None \<or> bl \<noteq> None" "4 * mw * mh < 2 ^ 53"
    and "0 < mw" "0 < mh"
  shows "\<exists>d. valid_raster m d"
  using constructor_size [OF assms(1,2,3)] assms(4,5,6)
  by (auto simp: valid_raster_def)

section \<open>Bare trails\<close>

lemma convert_singleton:
  "t \<noteq> [] \<Longrightarrow> convert_to_list_of_trails (js_trail t) = Inr (js_trail_set [t])"
  "t \<noteq> [] \<Longrightarrow> convert_to_list_of_trails (js_trail_set [t]) = Inr (js_trail_set [t])"
proof -
  assume "t \<noteq> []"
  then obtain p ps where t: "t = p # ps" by (cases t) auto
  show "convert_to_list_of_trails (js_trail t) = Inr (js_trail_set [t])"
    unfolding t by (simp add: convert_trail js_trail_set_def)
  show "convert_to_list_of_trails (js_trail_set [t]) = Inr (js_trail_set [t])"
    unfolding t by (rule convert_trail_set)
qed

text \<open>
  C7. For a trail \<open>t\<close> with at least one point, passing the bare trail and passing
  the one-element trail set \<open>[t]\<close> give the same result: the same score from
  \<open>compare\<close>, and the same object (stored trails and image data included) from the
  constructor and from \<open>update_mask_parameters\<close>. Lemma \<open>constructor_well_formed\<close>
  shows that the construction returns an object when the raster is not empty.
\<close>

theorem bare_trail_is_singleton_trail_set:
  assumes "t \<noteq> []"
  shows "compare m (js_trail t) = compare m (js_trail_set [t]) \<and>
         constructor br (Some (js_trail t)) mw mh th bl =
           constructor br (Some (js_trail_set [t])) mw mh th bl \<and>
         update_mask_parameters br m (Some (js_trail t)) th bl =
           update_mask_parameters br m (Some (js_trail_set [t])) th bl"
  by (simp add: compare_def constructor_def update_mask_parameters_def
      convert_singleton [OF assms])



theorem bare_trail_is_singleton_trail_set_witness:
  "example_trail \<noteq> [] \<and>
   compare example_mask (js_trail example_trail) = Inr (Fin (1 / 2)) \<and>
   compare example_mask (js_trail_set [example_trail]) = Inr (Fin (1 / 2)) \<and>
   constructor example_browser (Some (js_trail example_trail)) 2 1 (Some 64) (Some 32) =
     constructor example_browser (Some (js_trail_set [example_trail])) 2 1 (Some 64) (Some 32)"
proof -
  have "spec_score example_data (w example_mask) (h example_mask) example_trail = Fin (1 / 2)"
    by (simp add: example_trail_def spec_score_def spec_sample_def spec_px_example
        spec_in_bounds_def example_mask_def example_data_def fl_one fl_half)
  then have v: "compare example_mask (js_trail_set [example_trail]) = Inr (Fin (1 / 2))"
    using compare_trail_set [OF valid_example, of "(1, 1)" "[(2, 2)]" "[]"]
    by (simp add: example_trail_def)
  have ne: "example_trail \<noteq> []" by (simp add: example_trail_def)
  show ?thesis
    using bare_trail_is_singleton_trail_set
      [OF ne, of example_mask example_browser 2 1 "Some 64" "Some 32"] v ne
    by simp
qed

section \<open>The coordinate transform\<close>

lemma spec_px_zero: "d < 2 ^ 53 \<Longrightarrow> spec_px d 0 = Fin 0"
  by (simp add: spec_px_def fl_pred fl_zero)

lemma spec_px_one:
  assumes "d < 2 ^ 53"
  shows "spec_px d 1 = Fin (real d - 1)"
proof -
  have "round (real_of_int (int d - 1)) = int d - 1" by (rule round_of_int)
  then have "real_of_int (round (real d - 1)) = real d - 1" by simp
  then show ?thesis by (simp add: spec_px_def fl_pred [OF assms])
qed

lemma spec_px_range:
  assumes "0 \<le> v" "v \<le> 1" "0 < d" "d < 2 ^ 53"
  shows "\<exists>i. spec_px d v = Fin (of_int i) \<and> 0 \<le> i \<and> i \<le> int d - 1"
proof -
  have k: "real (d - 1) = real d - 1" using assms(3) by (simp add: of_nat_diff)
  have "0 \<le> v * (real d - 1)" using assms(1,3) by simp
  moreover have "v * (real d - 1) \<le> 1 * (real d - 1)"
    using assms(2,3) by (intro mult_right_mono) simp_all
  then have "v * (real d - 1) \<le> real (d - 1)" using k by simp
  moreover have "d - 1 < 2 ^ 53" using assms(4) by simp
  ultimately obtain r where r: "fl (v * (real d - 1)) = Fin r" "0 \<le> r" "r \<le> real (d - 1)"
    using fl_bounded by blast
  have "round (0 :: real) \<le> round r" using r(2) by (rule round_mono)
  then have lo: "0 \<le> round r" by simp
  have "round r \<le> round (real_of_int (int d - 1))"
    using r(3) k by (intro round_mono) simp
  then have hi: "round r \<le> int d - 1" unfolding round_of_int .
  have "spec_px d v = Fin (of_int (round r))"
    using r(1) by (simp add: spec_px_def fl_pred [OF assms(4)])
  with lo hi show ?thesis by blast
qed

lemma trails_path_trail:
  "trails_path [js_trail (q # qs)] wd ht =
     Inr (MoveTo (fst (px_pair wd ht q)) (snd (px_pair wd ht q)) #
          map (\<lambda>r. LineTo (fst (px_pair wd ht r)) (snd (px_pair wd ht r))) qs)"
  by (simp add: xy_norm_to_px_trail trail_path_cons comp_def)

text \<open>
  C5. \<open>_xy_norm_to_px\<close> maps every point \<open>(x, y)\<close> of a trail to
  \<open>(round(x * (width - 1)), round(y * (height - 1)))\<close>, the products and differences
  being those of doubles and \<open>round\<close> being \<open>Math.round\<close>. For a width and a height
  that a double holds exactly, \<open>0\<close> goes to column (row) \<open>0\<close> and \<open>1\<close> to column
  \<open>width - 1\<close> (row \<open>height - 1\<close>), and a coordinate in \<open>[0, 1]\<close> goes to a pixel in
  \<open>[0, dim - 1]\<close>. The path the rasteriser strokes for a trail is built from the same
  pairs as the ones the scorer samples (\<open>compare_loop_points\<close>). Lemma
  \<open>double_rounding_example\<close> runs the transform on the double \<open>0.35\<close> at width 11,
  where the rounded product \<open>3.5\<close> gives column 4.
\<close>

theorem xy_norm_to_px_transform:
  "xy_norm_to_px (js_trail ps) wd ht =
     Inr (map (\<lambda>(x, y).
                 (math_round (js_mul (Fin x) (js_sub (Fin (real wd)) (Fin 1))),
                  math_round (js_mul (Fin y) (js_sub (Fin (real ht)) (Fin 1))))) ps) \<and>
   (wd < 2 ^ 53 \<and> ht < 2 ^ 53 \<longrightarrow>
      xy_norm_to_px (js_trail [(0, 0)]) wd ht = Inr [(Fin 0, Fin 0)] \<and>
      xy_norm_to_px (js_trail [(1, 1)]) wd ht =
        Inr [(Fin (real wd - 1), Fin (real ht - 1))]) \<and>
   (0 \<le> x \<and> x \<le> 1 \<and> 0 \<le> y \<and> y \<le> 1 \<and> 0 < wd \<and> wd < 2 ^ 53 \<and> 0 < ht \<and> ht < 2 ^ 53 \<longrightarrow>
      (\<exists>px py. xy_norm_to_px (js_trail [(x, y)]) wd ht =
                  Inr [(Fin (of_int px), Fin (of_int py))] \<and>
               0 \<le> px \<and> px \<le> int wd - 1 \<and> 0 \<le> py \<and> py \<le> int ht - 1)) \<and>
   trails_path [js_trail (q # qs)] wd ht =
     Inr (MoveTo (fst (px_pair wd ht q)) (snd (px_pair wd ht q)) #
          map (\<lambda>r. LineTo (fst (px_pair wd ht r)) (snd (px_pair wd ht r))) qs)"
proof (intro conjI impI)
  show "xy_norm_to_px (js_trail ps) wd ht =
     Inr (map (\<lambda>(x, y).
                 (math_round (js_mul (Fin x) (js_sub (Fin (real wd)) (Fin 1))),
                  math_round (js_mul (Fin y) (js_sub (Fin (real ht)) (Fin 1))))) ps)"
    by (simp add: xy_norm_to_px_trail px_pair_def spec_px_def split_def
        del: js_sub.simps js_mul.simps)
  show "trails_path [js_trail (q # qs)] wd ht =
     Inr (MoveTo (fst (px_pair wd ht q)) (snd (px_pair wd ht q)) #
          map (\<lambda>r. LineTo (fst (px_pair wd ht r)) (snd (px_pair wd ht r))) qs)"
    by (rule trails_path_trail)
next
  assume "wd < 2 ^ 53 \<and> ht < 2 ^ 53"
  then show "xy_norm_to_px (js_trail [(0, 0)]) wd ht = Inr [(Fin 0, Fin 0)]"
    by (simp add: xy_norm_to_px_trail px_pair_def spec_px_zero)
next
  assume "wd < 2 ^ 53 \<and> ht < 2 ^ 53"
  then show "xy_norm_to_px (js_trail [(1, 1)]) wd ht =
        Inr [(Fin (real wd - 1), Fin (real ht - 1))]"
    by (simp add: xy_norm_to_px_trail px_pair_def spec_px_one)
next
  assume a: "0 \<le> x \<and> x \<le> 1 \<and> 0 \<le> y \<and> y \<le> 1 \<and> 0 < wd \<and> wd < 2 ^ 53 \<and> 0 < ht \<and> ht < 2 ^ 53"
  obtain i where i: "spec_px wd x = Fin (of_int i)" "0 \<le> i" "i \<le> int wd - 1"
    using a spec_px_range [of x wd] by blast
  obtain j where j: "spec_px ht y = Fin (of_int j)" "0 \<le> j" "j \<le> int ht - 1"
    using a spec_px_range [of y ht] by blast
  have "xy_norm_to_px (js_trail [(x, y)]) wd ht = Inr [(Fin (of_int i), Fin (of_int j))]"
    by (simp add: xy_norm_to_px_trail px_pair_def i j)
  with i j show "\<exists>px py. xy_norm_to_px (js_trail [(x, y)]) wd ht =
                  Inr [(Fin (of_int px), Fin (of_int py))] \<and>
               0 \<le> px \<and> px \<le> int wd - 1 \<and> 0 \<le> py \<and> py \<le> int ht - 1"
    by blast
qed

theorem xy_norm_to_px_transform_witness:
  "(4 :: nat) < 2 ^ 53 \<and> (5 :: nat) < 2 ^ 53 \<and>
   (0 :: real) \<le> 1 / 2 \<and> (1 :: real) / 2 \<le> 1 \<and> (0 :: real) \<le> 1 / 4 \<and> (1 :: real) / 4 \<le> 1 \<and>
   (0 :: nat) < 4 \<and> (0 :: nat) < 5 \<and>
   xy_norm_to_px (js_trail transform_trail) 4 5 = Inr [(Fin 2, Fin 1), (Fin 0, Fin 4)] \<and>
   xy_norm_to_px (js_trail [(0, 0)]) 4 5 = Inr [(Fin 0, Fin 0)] \<and>
   xy_norm_to_px (js_trail [(1, 1)]) 4 5 = Inr [(Fin 3, Fin 4)] \<and>
   (\<exists>px py. xy_norm_to_px (js_trail [(1 / 2, 1 / 4)]) 4 5 =
                  Inr [(Fin (of_int px), Fin (of_int py))] \<and>
               0 \<le> px \<and> px \<le> int 4 - 1 \<and> 0 \<le> py \<and> py \<le> int 5 - 1)"
proof -
  have f: "fl (3 / 2) = Fin (3 / 2)" using fl_exact [of 3 "- 1"] by simp
  have m: "math_round (Fin (3 / 2)) = Fin 2" by (simp add: round_def)
  note t = xy_norm_to_px_transform [of transform_trail 4 5 "1 / 2" "1 / 4"]
  have v: "xy_norm_to_px (js_trail transform_trail) 4 5 = Inr [(Fin 2, Fin 1), (Fin 0, Fin 4)]"
    using t by (simp add: transform_trail_def fl_numeral fl_one fl_zero f round_def)
  show ?thesis using t v by simp
qed

section \<open>Malformed points\<close>

lemma compare_loop_returns:
  assumes "img m = Some data"
  shows "\<exists>r. compare_loop m xs acc = Inr r"
proof (induction xs arbitrary: acc)
  case Nil
  show ?case by simp
next
  case (Cons a xs)
  obtain x y where a: "a = (x, y)" by (cases a)
  show ?case unfolding a using Cons.IH assms by (simp add: Let_def)
qed

lemma compare_loop_NaN:
  assumes "img m = Some data"
  shows "compare_loop m xs NaN = Inr NaN"
proof (induction xs)
  case Nil
  show ?case by simp
next
  case (Cons a xs)
  obtain x y where a: "a = (x, y)" by (cases a)
  show ?case unfolding a using Cons.IH assms by (simp add: Let_def split: option.splits)
qed

lemma compare_loop_missing_y:
  assumes "img m = Some data" "(c, NaN) \<in> set xs" "coord_in_range (w m) c"
  shows "compare_loop m xs acc = Inr NaN"
  using assms(2)
proof (induction xs arbitrary: acc)
  case Nil
  then show ?case by simp
next
  case (Cons a xs)
  obtain x y where a: "a = (x, y)" by (cases a)
  show ?case
  proof (cases "a = (c, NaN)")
    case True
    from assms(3) obtain r where c: "c = Fin r" "0 \<le> r" "r \<le> real (w m) - 1"
      by (cases c) auto
    then have "\<not> real (w m) \<le> r" by simp
    then show ?thesis
      using True c assms(1) compare_loop_NaN [OF assms(1)] by (simp add: Let_def)
  next
    case False
    with Cons.prems have "(c, NaN) \<in> set xs" by simp
    from Cons.IH [OF this] show ?thesis
      unfolding a using assms(1) by (simp add: Let_def)
  qed
qed

lemma js_div_NaN: "js_div NaN n = NaN"
  by (cases n) simp_all

lemma compare_partial_trail:
  assumes "qs \<noteq> []"
  shows "compare m (Arr (map js_partial_point qs)) =
           (case compare_loop m (map (px_partial (w m) (h m)) qs) (Fin 0) of
              Inl e \<Rightarrow> Inl e
            | Inr t \<Rightarrow> Inr (js_div (js_div t (Fin (real (mask_value m))))
                             (Fin (real (length qs)))))"
proof -
  from assms obtain q qs' where qs: "qs = q # qs'" by (cases qs) auto
  have cv: "convert_to_list_of_trails (Arr (map js_partial_point qs)) =
              Inr (Arr [Arr (map js_partial_point qs)])"
    unfolding qs by (rule convert_partial_trail)
  have px: "xy_norm_to_px (Arr (map js_partial_point qs)) (w m) (h m) =
              Inr (map (px_partial (w m) (h m)) qs)"
    by (rule xy_norm_to_px_partial)
  show ?thesis
    by (simp add: compare_def cv px Let_def del: js_div.simps compare_loop.simps
        split: sum.splits)
qed

lemma compare_partial_NaN:
  assumes "img m = Some data" "(x, None) \<in> set qs" "coord_in_range (w m) (spec_px (w m) x)"
  shows "compare m (Arr (map js_partial_point qs)) = Inr NaN"
proof -
  have ne: "qs \<noteq> []" using assms(2) by auto
  have "px_partial (w m) (h m) (x, None) \<in> set (map (px_partial (w m) (h m)) qs)"
    unfolding set_map using assms(2) by (rule imageI)
  then have "(spec_px (w m) x, NaN) \<in> set (map (px_partial (w m) (h m)) qs)" by simp
  from compare_loop_missing_y [OF assms(1) this assms(3)]
  show ?thesis
    by (simp add: compare_partial_trail [OF ne] js_div_NaN del: js_div.simps compare_loop.simps)
qed

lemma compare_partial_sum:
  assumes "valid_raster m data" "qs \<noteq> []" "length qs < 2 ^ 32"
    and "\<And>x. (x, None) \<in> set qs \<Longrightarrow> \<not> coord_in_range (w m) (spec_px (w m) x)"
  shows "compare m (Arr (map js_partial_point qs)) =
           Inr (js_div
                  (js_div (Fin (real (sum_list (map (partial_sample data (w m) (h m)) qs))))
                          (Fin 255))
                  (Fin (real (length qs))))"
proof -
  have mv: "mask_value m = 255" using assms(1) by (simp add: valid_raster_def)
  have "compare_loop m (map (px_partial (w m) (h m)) qs) (Fin (real 0)) =
          Inr (Fin (real (0 + sum_list (map (partial_sample data (w m) (h m)) qs))))"
    using assms(1) assms(4) array_sum_bound [OF assms(3)] by (rule compare_loop_partial)
  then show ?thesis
    by (simp add: compare_partial_trail [OF assms(2)] mv del: js_div.simps compare_loop.simps)
qed

lemma map_err_throws:
  assumes "v \<in> set xs" "destructure_xy v = Inl TypeError"
  shows "map_err (xy_to_px ws hs) xs = Inl TypeError"
  using assms(1)
proof (induction xs)
  case Nil
  then show ?case by simp
next
  case (Cons a xs)
  have e: "xy_to_px ws hs u = Inl e \<Longrightarrow> e = TypeError" for u e
    by (cases u) (auto simp: xy_to_px_def split: sum.splits)
  show ?case
  proof (cases "xy_to_px ws hs a")
    case (Inl err)
    with e [OF Inl] show ?thesis by simp
  next
    case (Inr pr)
    have "a \<noteq> v" using Inr assms(2) by (auto simp: xy_to_px_def)
    with Cons.prems have "v \<in> set xs" by simp
    from Cons.IH [OF this] Inr show ?thesis by simp
  qed
qed

lemma compare_non_array_throws:
  assumes "v = Undefined \<or> (\<exists>n. v = Num n)"
  shows "compare m (Arr (map js_partial_point pre @ v # post)) = Inl TypeError"
proof (cases pre)
  case Nil
  have "convert_to_list_of_trails (Arr (v # post)) = Inl TypeError"
    using assms by (auto simp: convert_to_list_of_trails_def)
  then show ?thesis by (simp add: Nil compare_def)
next
  case (Cons q qs')
  obtain x yo where q: "q = (x, yo)" by (cases q)
  define whole where "whole = map js_partial_point pre @ v # post"
  have cv: "convert_to_list_of_trails (Arr whole) = Inr (Arr [Arr whole])"
    unfolding whole_def Cons q by (cases yo) (simp_all add: convert_to_list_of_trails_def)
  have d: "destructure_xy v = Inl TypeError" using assms by auto
  have "v \<in> set whole" by (simp add: whole_def)
  from map_err_throws [OF this d]
  have "xy_norm_to_px (Arr whole) (w m) (h m) = Inl TypeError"
    by (simp add: xy_norm_to_px_def del: js_sub.simps)
  then show ?thesis
    unfolding whole_def [symmetric] by (simp add: compare_def cv)
qed

text \<open>
  C8, amended. On a mask with image data, for a query trail whose points are arrays
  that may lack their second coordinate (with fewer points than an array can hold),
  the scoring does not fail. It returns \<open>NaN\<close> when a point without second coordinate
  maps to a column inside the raster. Otherwise every such point is skipped as out of
  bounds: it adds \<open>0\<close> to the sum and counts in the number of points, and the score is
  the sum of the samples divided by \<open>255\<close> and by the number of points. When a trail
  of such points also holds an element that is no array (\<open>undefined\<close> or a number), at
  any place, the scoring throws a \<open>TypeError\<close>.
\<close>

theorem compare_malformed_points:
  assumes "valid_raster m data" "qs \<noteq> []" "length qs < 2 ^ 32"
  shows "((\<exists>x. (x, None) \<in> set qs \<and> coord_in_range (w m) (spec_px (w m) x)) \<longrightarrow>
            compare m (Arr (map js_partial_point qs)) = Inr NaN) \<and>
         ((\<forall>x. (x, None) \<in> set qs \<longrightarrow> \<not> coord_in_range (w m) (spec_px (w m) x)) \<longrightarrow>
            compare m (Arr (map js_partial_point qs)) =
              Inr (js_div
                     (js_div (Fin (real (sum_list (map (partial_sample data (w m) (h m)) qs))))
                             (Fin 255))
                     (Fin (real (length qs))))) \<and>
         (v = Undefined \<or> (\<exists>n. v = Num n) \<longrightarrow>
            compare m (Arr (map js_partial_point pre @ v # post)) = Inl TypeError)"
proof (intro conjI impI)
  have im: "img m = Some data" using assms(1) by (simp add: valid_raster_def)
  assume "\<exists>x. (x, None) \<in> set qs \<and> coord_in_range (w m) (spec_px (w m) x)"
  then obtain x where "(x, None) \<in> set qs" "coord_in_range (w m) (spec_px (w m) x)" by blast
  with im show "compare m (Arr (map js_partial_point qs)) = Inr NaN"
    by (rule compare_partial_NaN)
next
  assume "\<forall>x. (x, None) \<in> set qs \<longrightarrow> \<not> coord_in_range (w m) (spec_px (w m) x)"
  then have "\<And>x. (x, None) \<in> set qs \<Longrightarrow> \<not> coord_in_range (w m) (spec_px (w m) x)" by blast
  with assms show "compare m (Arr (map js_partial_point qs)) =
              Inr (js_div
                     (js_div (Fin (real (sum_list (map (partial_sample data (w m) (h m)) qs))))
                             (Fin 255))
                     (Fin (real (length qs))))"
    by (rule compare_partial_sum)
next
  assume "v = Undefined \<or> (\<exists>n. v = Num n)"
  then show "compare m (Arr (map js_partial_point pre @ v # post)) = Inl TypeError"
    by (rule compare_non_array_throws)
qed

theorem compare_malformed_points_witness:
  "valid_raster example_mask example_data \<and>
   trail_nan \<noteq> [] \<and> length trail_nan < 2 ^ 32 \<and>
   (1, None) \<in> set trail_nan \<and>
   coord_in_range (w example_mask) (spec_px (w example_mask) 1) \<and>
   compare example_mask (Arr (map js_partial_point trail_nan)) = Inr NaN \<and>
   trail_skip \<noteq> [] \<and> length trail_skip < 2 ^ 32 \<and>
   \<not> coord_in_range (w example_mask) (spec_px (w example_mask) 2) \<and>
   compare example_mask (Arr (map js_partial_point trail_skip)) = Inr (Fin (1 / 2)) \<and>
   compare example_mask (Arr (map js_partial_point trail_skip @ [Undefined])) = Inl TypeError \<and>
   compare example_mask (Arr (Num (Fin 5) # map js_partial_point trail_skip)) = Inl TypeError"
proof -
  have n: "trail_nan \<noteq> []" "length trail_nan < 2 ^ 32" "(1, None) \<in> set trail_nan"
    "coord_in_range (w example_mask) (spec_px (w example_mask) 1)"
    by (simp_all add: trail_nan_def example_mask_def spec_px_example)
  have k: "trail_skip \<noteq> []" "length trail_skip < 2 ^ 32"
    "\<not> coord_in_range (w example_mask) (spec_px (w example_mask) 2)"
    by (simp_all add: trail_skip_def example_mask_def spec_px_example)
  have a: "\<forall>x. (x, None) \<in> set trail_skip \<longrightarrow>
             \<not> coord_in_range (w example_mask) (spec_px (w example_mask) x)"
    using k(3) by (simp add: trail_skip_def)
  have s: "sum_list (map (partial_sample example_data (w example_mask) (h example_mask))
             trail_skip) = 255" "length trail_skip = 2"
    by (simp_all add: trail_skip_def spec_sample_def spec_px_example spec_in_bounds_def
        example_mask_def example_data_def)
  from compare_malformed_points [OF valid_example n(1,2), of Undefined "[]" "[]"] n(3,4)
  have c1: "compare example_mask (Arr (map js_partial_point trail_nan)) = Inr NaN" by blast
  from compare_malformed_points [OF valid_example k(1,2), of Undefined trail_skip "[]"] a
  have c2: "compare example_mask (Arr (map js_partial_point trail_skip)) =
              Inr (js_div
                     (js_div (Fin (real (sum_list
                        (map (partial_sample example_data (w example_mask) (h example_mask))
                           trail_skip)))) (Fin 255))
                     (Fin (real (length trail_skip))))"
    and c3: "compare example_mask (Arr (map js_partial_point trail_skip @ [Undefined])) =
               Inl TypeError"
    by simp_all
  have c2': "compare example_mask (Arr (map js_partial_point trail_skip)) = Inr (Fin (1 / 2))"
    unfolding c2 s by (simp add: fl_one fl_half)
  from compare_malformed_points
    [OF valid_example k(1,2), of "Num (Fin 5)" "[]" "map js_partial_point trail_skip"]
  have c4: "compare example_mask (Arr (Num (Fin 5) # map js_partial_point trail_skip)) =
              Inl TypeError"
    by simp
  show ?thesis using valid_example n k c1 c2' c3 c4 by simp
qed

text \<open>
  C8, as stated, fails: for the trail \<open>[[0, 1], [1]]\<close>, whose second point has no
  second coordinate, \<open>compare\<close> on the example mask throws nothing and returns \<open>NaN\<close>.
\<close>

theorem compare_missing_coordinate_counterexample:
  "compare example_mask (Arr [Arr [Num (Fin 0), Num (Fin 1)], Arr [Num (Fin 1)]]) = Inr NaN"
proof -
  have "compare example_mask (Arr (map js_partial_point [(0, Some 1), (1, None)])) = Inr NaN"
  proof (rule compare_partial_NaN)
    show "img example_mask = Some example_data" by (simp add: example_mask_def)
    show "(1, None) \<in> set [(0, Some 1), (1 :: real, None :: real option)]" by simp
    show "coord_in_range (w example_mask) (spec_px (w example_mask) 1)"
      by (simp add: example_mask_def spec_px_example)
  qed
  then show ?thesis by simp
qed

end
